theory Spec2Isabelle
  imports Complex_Main
begin

section \<open>Python values, errors and numbers\<close>

text \<open>
  The model follows \<^verbatim>\<open>src/models/src/dataseters/GRUs.py\<close>. Every exception the code can
  raise is a value of \<open>error\<close>; a function that can raise returns \<open>error + 'a\<close> with
  \<open>Inl\<close> for the exception. An \<^verbatim>\<open>assert\<close> carries its message.
\<close>

datatype error =
    AssertionError string
  | AttributeError
  | UnboundLocalError
  | NameError string
  | KeyError
  | IndexError
  | ValueError
  | TypeError
  | RuntimeError
  | FileNotFoundError

text \<open>
  Array elements are floating-point numbers. Rounding and overflow are not modelled: a finite
  value is a real number and finite arithmetic is exact. What is modelled is the part of the
  IEEE arithmetic that numpy and torch expose without raising: division by zero gives an
  infinity or a NaN, and both propagate.
\<close>

datatype fnum = Fin real | PInf | NInf | NaN

fun fneg :: "fnum \<Rightarrow> fnum" where
  "fneg (Fin a) = Fin (- a)"
| "fneg PInf = NInf"
| "fneg NInf = PInf"
| "fneg NaN = NaN"

fun fadd :: "fnum \<Rightarrow> fnum \<Rightarrow> fnum" where
  "fadd NaN _ = NaN"
| "fadd _ NaN = NaN"
| "fadd (Fin a) (Fin b) = Fin (a + b)"
| "fadd PInf NInf = NaN"
| "fadd NInf PInf = NaN"
| "fadd PInf _ = PInf"
| "fadd NInf _ = NInf"
| "fadd (Fin a) PInf = PInf"
| "fadd (Fin a) NInf = NInf"

definition fsub :: "fnum \<Rightarrow> fnum \<Rightarrow> fnum" where
  "fsub x y = fadd x (fneg y)"

text \<open>Division; a zero divisor is the positive zero that \<open>x - x\<close> produces.\<close>

fun fdiv :: "fnum \<Rightarrow> fnum \<Rightarrow> fnum" where
  "fdiv NaN _ = NaN"
| "fdiv _ NaN = NaN"
| "fdiv (Fin a) (Fin b) =
     (if b \<noteq> 0 then Fin (a / b)
      else if 0 < a then PInf else if a < 0 then NInf else NaN)"
| "fdiv (Fin a) PInf = Fin 0"
| "fdiv (Fin a) NInf = Fin 0"
| "fdiv PInf (Fin b) = (if 0 \<le> b then PInf else NInf)"
| "fdiv NInf (Fin b) = (if 0 \<le> b then NInf else PInf)"
| "fdiv PInf _ = NaN"
| "fdiv NInf _ = NaN"

fun is_finite :: "fnum \<Rightarrow> bool" where
  "is_finite (Fin a) = True"
| "is_finite _ = False"

text \<open>The order numpy's \<^verbatim>\<open>min\<close> and \<^verbatim>\<open>max\<close> use on values that are not NaN.\<close>

fun fle :: "fnum \<Rightarrow> fnum \<Rightarrow> bool" where
  "fle NInf _ = True"
| "fle _ PInf = True"
| "fle (Fin a) (Fin b) = (a \<le> b)"
| "fle _ _ = False"

text \<open>\<^verbatim>\<open>np.min\<close> and \<^verbatim>\<open>np.max\<close> of a flattened array: they raise on an empty array and
  return NaN when an element is NaN.\<close>

definition np_min :: "fnum list \<Rightarrow> error + fnum" where
  "np_min xs =
     (case xs of [] \<Rightarrow> Inl ValueError
      | y # ys \<Rightarrow> if NaN \<in> set xs then Inr NaN
                  else Inr (fold (\<lambda>a m. if fle a m then a else m) ys y))"

definition np_max :: "fnum list \<Rightarrow> error + fnum" where
  "np_max xs =
     (case xs of [] \<Rightarrow> Inl ValueError
      | y # ys \<Rightarrow> if NaN \<in> set xs then Inr NaN
                  else Inr (fold (\<lambda>a m. if fle m a then a else m) ys y))"

text \<open>Python's \<^verbatim>\<open>int(x)\<close> on a float truncates towards zero.\<close>

definition py_int :: "rat \<Rightarrow> int" where
  "py_int q = (if 0 \<le> q then \<lfloor>q\<rfloor> else \<lceil>q\<rceil>)"

text \<open>The slices \<^verbatim>\<open>xs[0:k]\<close> and \<^verbatim>\<open>xs[k:]\<close>; a negative bound counts from the end and
  every bound is clamped to the list.\<close>

definition slice_to :: "'a list \<Rightarrow> int \<Rightarrow> 'a list" where
  "slice_to xs k = take (nat (if k < 0 then int (length xs) + k else k)) xs"

definition slice_from :: "'a list \<Rightarrow> int \<Rightarrow> 'a list" where
  "slice_from xs k = drop (nat (if k < 0 then int (length xs) + k else k)) xs"

section \<open>Time\<close>

text \<open>
  A timestamp is a number of whole seconds since a fixed epoch, and a \<^verbatim>\<open>timedelta\<close> a
  number of seconds. Python normalises a timedelta to \<^verbatim>\<open>days\<close> (of any sign) and
  \<^verbatim>\<open>seconds\<close> in \<open>[0, 86400)\<close>.
\<close>

type_synonym datetime = int
type_synonym timedelta = int

definition minutes :: "int \<Rightarrow> timedelta" where
  "minutes m = m * 60"

definition td_days :: "timedelta \<Rightarrow> int" where
  "td_days d = d div 86400"

definition td_seconds :: "timedelta \<Rightarrow> int" where
  "td_seconds d = d mod 86400"

section \<open>Samples\<close>

text \<open>
  A two-dimensional array is a list of rows. \<open>inputs\<close> is indexed by frame, channel, row and
  column; \<open>radar_map\<close> by channel, row and column; \<open>targets\<close> by frame, row and column;
  \<open>ty_infos\<close> by row and column. A numpy array and the torch tensor sharing its memory are
  the same value here. An array whose first axis is empty is the empty list: the lengths of
  its other axes are not kept.
\<close>

type_synonym grid = "fnum list list"

record Sample =
  inputs :: "grid list list"
  targets :: "grid list"
  ty_infos :: "fnum list list"
  radar_map :: "grid list"
  current_time :: string
  height :: grid

text \<open>
  A transform is called on the sample object and may update its arrays in place: it returns
  its result (or the exception) together with the sample object as it is after the call.
\<close>

type_synonym transform = "Sample \<Rightarrow> (error + Sample) \<times> Sample"

section \<open>Arguments\<close>

text \<open>The row of the typhoon list: the index \<^verbatim>\<open>En name\<close> and the two time columns.\<close>

record ty_row =
  En_name :: string
  Time_of_issuing :: datetime
  Time_of_canceling :: datetime

text \<open>The classes \<^verbatim>\<open>type(x)\<close> can return, as far as the code compares them.\<close>

datatype pytype = T_Series | T_list | T_other string

text \<open>
  The normalisation statistics are an object of any class. The code subscripts it with a
  label (\<^verbatim>\<open>x['RAD']\<close>) and slices it from a label on (\<^verbatim>\<open>x.loc['Lat':].to_numpy()\<close>); the
  object is given by its class and by what these two operations return on it.
\<close>

record stats =
  py_type :: pytype
  getitem :: "string \<Rightarrow> error + fnum"
  loc_from :: "string \<Rightarrow> error + fnum list"

text \<open>A \<^verbatim>\<open>pd.Series\<close> with the given labels and values, in order, the labels in no sorted
  order: a slice from a label it does not have raises. (On a sorted index pandas slices from
  the place the label would take.)\<close>

definition Series :: "(string \<times> fnum) list \<Rightarrow> stats" where
  "Series kvs =
     \<lparr> py_type = T_Series,
       getitem = (\<lambda>l. case map_of kvs l of None \<Rightarrow> Inl KeyError | Some v \<Rightarrow> Inr v),
       loc_from = (\<lambda>l. if l \<in> set (map fst kvs)
                        then Inr (map snd (dropWhile (\<lambda>kv. fst kv \<noteq> l) kvs))
                        else Inl KeyError) \<rparr>"

text \<open>A Python list: a string is no index of it and it has no \<^verbatim>\<open>loc\<close>.\<close>

definition PyList :: "fnum list \<Rightarrow> stats" where
  "PyList vs =
     \<lparr> py_type = T_list, getitem = (\<lambda>l. Inl TypeError), loc_from = (\<lambda>l. Inl AttributeError) \<rparr>"

text \<open>
  The \<^verbatim>\<open>args\<close> namespace. \<open>ty_list\<close> is the table read from the file \<^verbatim>\<open>args.ty_list\<close> names,
  after the two time columns are parsed. The sizes of the arrays are natural numbers
  (\<^verbatim>\<open>np.zeros\<close> accepts no other); the frame counts enter the time arithmetic and are
  integers.
\<close>

record args =
  ty_list :: "ty_row list"
  radar_folder :: string
  radar_wrangled_data_folder :: string
  weather_wrangled_data_folder :: string
  ty_info_wrangled_data_folder :: string
  weather_list :: "string list"
  input_with_grid :: bool
  input_frames :: int
  target_frames :: int
  input_channels :: nat
  I_x :: "real \<times> real"
  I_y :: "real \<times> real"
  I_shape :: "nat \<times> nat"
  F_x :: "real \<times> real"
  F_y :: "real \<times> real"
  F_shape :: "nat \<times> nat"
  O_shape :: "nat \<times> nat"
  compression :: string
  target_RAD :: bool
  catcher_location :: bool
  max_values :: stats
  min_values :: stats
  normalize_target :: bool

section \<open>The dataset\<close>

text \<open>One row of \<^verbatim>\<open>idx_df\<close>: the index \<^verbatim>\<open>Typhoon\<close> and the four columns.\<close>

record idx_row =
  Typhoon :: string
  The_starting_time :: datetime
  The_ending_time :: datetime
  The_starting_idx :: int
  The_ending_idx :: int

text \<open>
  The dataset object holds the fields it copies from \<^verbatim>\<open>args\<close> (the record keeps all of
  them) and its own. \<open>total_frames\<close> and \<open>sample\<close> are \<open>None\<close> while the attribute has not
  been assigned.
\<close>

record TyDataset = args +
  transform :: "transform option"
  events_list :: "string list"
  idx_df :: "idx_row list"
  total_frames :: "int option"
  sample :: "Sample option"

text \<open>
  \<^verbatim>\<open>ty_list.loc[i, column]\<close>: the value of the one row labelled \<open>i\<close>. With several rows of
  that label pandas returns a Series, and the code's \<^verbatim>\<open>.days\<close> on the difference of two of
  them raises.
\<close>

definition ty_loc :: "ty_row list \<Rightarrow> string \<Rightarrow> error + ty_row" where
  "ty_loc tab i =
     (case filter (\<lambda>r. En_name r = i) tab of
        [] \<Rightarrow> Inl KeyError
      | [r] \<Rightarrow> Inr r
      | _ \<Rightarrow> Inl AttributeError)"

text \<open>Lines 62 to 75, the positions chosen from the permutation \<open>rand_tys\<close> of \<open>n\<close> events.\<close>

definition events_num :: "nat list \<Rightarrow> nat \<Rightarrow> bool \<Rightarrow> int option \<Rightarrow> error + nat list" where
  "events_num rand_tys n train train_num =
     (if train then
        (case train_num of
           None \<Rightarrow> Inr (slice_to rand_tys (py_int (of_nat n / 4 * 3)))
         | Some k \<Rightarrow>
             if k \<le> int n then Inr (slice_to rand_tys k)
             else Inl (AssertionError
               ''The train_num shoud be less than total number of ty events.''))
      else
        (case train_num of
           None \<Rightarrow> Inr (slice_from rand_tys (py_int (of_nat n / 4 * 3)))
         | Some k \<Rightarrow>
             if k \<le> int n then Inr (slice_from rand_tys k)
             else Inl (AssertionError
               ''The train_num shoud be less than total number of ty events.'')))"

text \<open>\<^verbatim>\<open>ty_list.index[events_num]\<close>: the labels at the given positions.\<close>

definition index_take :: "ty_row list \<Rightarrow> nat list \<Rightarrow> error + string list" where
  "index_take tab ps =
     (if list_all (\<lambda>p. p < length tab) ps then Inr (map (\<lambda>p. En_name (tab ! p)) ps)
      else Inl IndexError)"

text \<open>Line 85, \<^verbatim>\<open>int((frame_e-frame_s).days*24*6 + (frame_e-frame_s).seconds/600)\<close>.\<close>

definition frame_span :: "datetime \<Rightarrow> datetime \<Rightarrow> int" where
  "frame_span frame_s frame_e =
     py_int (of_int (td_days (frame_e - frame_s)) * 24 * 6
             + of_int (td_seconds (frame_e - frame_s)) / 600)"

text \<open>Line 83, the cancel time moved back by the window length less one step. The
  arithmetic is exact: \<^verbatim>\<open>dt.timedelta\<close> and the subtraction from a timestamp raise for
  lengths and times beyond the range these types represent, and that range is not modelled.\<close>

definition adjusted_cancel :: "int \<Rightarrow> int \<Rightarrow> ty_row \<Rightarrow> datetime" where
  "adjusted_cancel nin ntg r = Time_of_canceling r - minutes ((nin + ntg - 1) * 10)"

text \<open>
  The loop of lines 81 to 87 over the selected events, with the running \<open>tmp\<close> and the
  attribute \<open>total_frames\<close> as they stand; it returns \<open>total_frames\<close> and the rows written.
\<close>

fun build_idx ::
  "ty_row list \<Rightarrow> int \<Rightarrow> int \<Rightarrow> string list \<Rightarrow> int \<Rightarrow> int option \<Rightarrow>
   error + (int option \<times> idx_row list)" where
  "build_idx tab nin ntg [] tmp tot = Inr (tot, [])"
| "build_idx tab nin ntg (i # evs) tmp tot =
     (case ty_loc tab i of
        Inl e \<Rightarrow> Inl e
      | Inr r \<Rightarrow>
          (let frame_s = Time_of_issuing r;
               frame_e = adjusted_cancel nin ntg r;
               total = tmp + frame_span frame_s frame_e + 1
           in case build_idx tab nin ntg evs total (Some total) of
                Inl e \<Rightarrow> Inl e
              | Inr (tot', rows) \<Rightarrow>
                  Inr (tot',
                       \<lparr> Typhoon = i, The_starting_time = frame_s, The_ending_time = frame_e,
                         The_starting_idx = tmp, The_ending_idx = total - 1 \<rparr> # rows)))"

text \<open>
  \<^verbatim>\<open>TyDataset.__init__\<close>. \<open>choice n\<close> is what \<^verbatim>\<open>np.random.choice(n, n, replace=False)\<close>
  returns right after \<^verbatim>\<open>np.random.seed(1)\<close>. With \<^verbatim>\<open>args\<close> equal to \<^verbatim>\<open>None\<close> the local
  \<^verbatim>\<open>ty_list\<close> is never bound and line 60 raises.
\<close>

definition TyDataset_init ::
  "(nat \<Rightarrow> nat list) \<Rightarrow> args option \<Rightarrow> bool \<Rightarrow> int option \<Rightarrow> transform option \<Rightarrow>
   error + TyDataset" where
  "TyDataset_init choice args_opt train train_num tr =
     (case args_opt of
        None \<Rightarrow> Inl UnboundLocalError
      | Some a \<Rightarrow>
          (let rand_tys = choice (length (ty_list a)) in
           case events_num rand_tys (length (ty_list a)) train train_num of
             Inl e \<Rightarrow> Inl e
           | Inr ps \<Rightarrow>
               (case index_take (ty_list a) ps of
                  Inl e \<Rightarrow> Inl e
                | Inr evs \<Rightarrow>
                    (case build_idx (ty_list a) (input_frames a) (target_frames a) evs 0 None of
                       Inl e \<Rightarrow> Inl e
                     | Inr (tot, rows) \<Rightarrow>
                         Inr (args.extend a
                                \<lparr> transform = tr, events_list = evs, idx_df = rows,
                                  total_frames = tot, sample = None \<rparr>)))))"

text \<open>\<^verbatim>\<open>__len__\<close>.\<close>

definition len :: "TyDataset \<Rightarrow> error + int" where
  "len ds = (case total_frames ds of None \<Rightarrow> Inl AttributeError | Some t \<Rightarrow> Inr t)"

text \<open>
  Lines 99 to 105, the scan of \<^verbatim>\<open>__getitem__\<close>: the first row whose ending index is not
  below \<open>idx\<close>, with \<open>tmp_idx\<close>. When no row is found the loop ends and the method returns
  \<^verbatim>\<open>None\<close>.
\<close>

fun scan :: "idx_row list \<Rightarrow> int \<Rightarrow> (idx_row \<times> int) option" where
  "scan [] idx = None"
| "scan (r # rs) idx =
     (if idx > The_ending_idx r then scan rs idx
      else Some (r, idx - The_starting_idx r))"

text \<open>Lines 97 to 105: the assertion, then the scan; the event and its local offset.\<close>

definition resolve :: "TyDataset \<Rightarrow> int \<Rightarrow> error + (string \<times> int) option" where
  "resolve ds idx =
     (case total_frames ds of
        None \<Rightarrow> Inl AttributeError
      | Some t \<Rightarrow>
          if idx < t then Inr (map_option (\<lambda>(r, off). (Typhoon r, off)) (scan (idx_df ds) idx))
          else Inl (AssertionError ''Index is out of the range of the data!''))"

text \<open>The number of valid windows line 85 adds for an event.\<close>

definition valid_window_count :: "int \<Rightarrow> int \<Rightarrow> ty_row \<Rightarrow> int" where
  "valid_window_count nin ntg r = frame_span (Time_of_issuing r) (adjusted_cancel nin ntg r) + 1"

text \<open>The same for the event labelled \<open>i\<close> of a dataset, and their sum over the selection.\<close>

definition event_count :: "TyDataset \<Rightarrow> string \<Rightarrow> int" where
  "event_count ds i =
     (case ty_loc (ty_list ds) i of
        Inl e \<Rightarrow> 0
      | Inr r \<Rightarrow> valid_window_count (input_frames ds) (target_frames ds) r)"

definition total_samples :: "TyDataset \<Rightarrow> int" where
  "total_samples ds = sum_list (map (event_count ds) (events_list ds))"

text \<open>The number of indices a row of the table spans, and the rows following one another
  from the index \<open>t\<close> on.\<close>

definition row_count :: "idx_row \<Rightarrow> int" where
  "row_count r = The_ending_idx r - The_starting_idx r + 1"

fun chain :: "int \<Rightarrow> idx_row list \<Rightarrow> bool" where
  "chain t [] = True"
| "chain t (r # rs) = (The_starting_idx r = t \<and> chain (The_ending_idx r + 1) rs)"

section \<open>Assembling a sample\<close>

text \<open>
  What \<^verbatim>\<open>__getitem__\<close> takes from outside the program: the calendar (the rendering of a time
  by \<^verbatim>\<open>strftime\<close> with the format \<^verbatim>\<open>%Y%m%d%H%M\<close>, and \<^verbatim>\<open>str\<close> of its year) and the files.
  \<open>read_pickle path compression crop\<close> is \<^verbatim>\<open>pd.read_pickle(path, compression)\<close> followed by
  \<^verbatim>\<open>.loc[y0:y1, x0:x1]\<close> when \<open>crop\<close> is \<open>Some ((y0, y1), (x0, x1))\<close>, and by \<^verbatim>\<open>.to_numpy()\<close>.
  \<open>read_ty_infos path t1 t2\<close> is lines 151 to 158: the table read, indexed by its time
  column, sliced from \<open>t1\<close> to \<open>t2\<close>, as an array.
\<close>

record env =
  strftime :: "datetime \<Rightarrow> string"
  year_str :: "datetime \<Rightarrow> string"
  read_pickle :: "string \<Rightarrow> string \<Rightarrow> ((real \<times> real) \<times> (real \<times> real)) option \<Rightarrow> error + grid"
  read_ty_infos :: "string \<Rightarrow> string \<Rightarrow> string \<Rightarrow> error + fnum list list"

text \<open>Sequencing: the first exception ends the computation.\<close>

definition and_then :: "error + 'a \<Rightarrow> ('a \<Rightarrow> error + 'b) \<Rightarrow> error + 'b" where
  "and_then m f = (case m of Inl e \<Rightarrow> Inl e | Inr x \<Rightarrow> f x)"

fun collect :: "(nat \<Rightarrow> error + 'a) \<Rightarrow> nat list \<Rightarrow> error + 'a list" where
  "collect f [] = Inr []"
| "collect f (j # js) = and_then (f j) (\<lambda>x. and_then (collect f js) (\<lambda>xs. Inr (x # xs)))"

text \<open>\<^verbatim>\<open>os.path.join\<close> of two components, on POSIX.\<close>

definition os_path_join :: "string \<Rightarrow> string \<Rightarrow> string" where
  "os_path_join a b =
     (if b \<noteq> [] \<and> hd b = CHR ''/'' then b
      else if a = [] \<or> last a = CHR ''/'' then a @ b
      else a @ ''/'' @ b)"

text \<open>\<^verbatim>\<open>np.zeros\<close> of channels, rows and columns; the frames of \<^verbatim>\<open>np.zeros((n, ...))\<close>, which
  raises for a negative \<open>n\<close>.\<close>

definition np_zeros :: "nat \<Rightarrow> nat \<Rightarrow> nat \<Rightarrow> grid list" where
  "np_zeros c h w = replicate c (replicate h (replicate w (Fin 0)))"

definition frame_indices :: "int \<Rightarrow> error + nat list" where
  "frame_indices n = (if n < 0 then Inl ValueError else Inr [0..<nat n])"

text \<open>\<^verbatim>\<open>np.meshgrid(np.arange(0, w), np.arange(0, h))\<close>: both have \<open>h\<close> rows and \<open>w\<close> columns.\<close>

definition gird_x :: "nat \<Rightarrow> nat \<Rightarrow> grid" where
  "gird_x w h = replicate h (map (\<lambda>c. Fin (of_nat c)) [0..<w])"

definition gird_y :: "nat \<Rightarrow> nat \<Rightarrow> grid" where
  "gird_y w h = map (\<lambda>r. replicate w (Fin (of_nat r))) [0..<h]"

text \<open>The value a two-dimensional array takes in a slot of \<open>h\<close> rows and \<open>w\<close> columns: numpy
  broadcasts an axis of length one and raises on any other mismatch. An array without rows
  is a list without elements, whatever its number of columns: it fits a slot without rows.\<close>

definition stretch :: "nat \<Rightarrow> nat \<Rightarrow> nat \<Rightarrow> nat \<Rightarrow> grid \<Rightarrow> grid" where
  "stretch gh gw h w g =
     map (\<lambda>i. map (\<lambda>j. g ! (if gh = 1 then 0 else i) ! (if gw = 1 then 0 else j)) [0..<w]) [0..<h]"

definition broadcast2 :: "nat \<Rightarrow> nat \<Rightarrow> grid \<Rightarrow> error + grid" where
  "broadcast2 h w g =
     (case g of
        [] \<Rightarrow> if h = 0 then Inr [] else Inl ValueError
      | r # _ \<Rightarrow>
          (let gh = length g; gw = length r
           in if list_all (\<lambda>r. length r = gw) g \<and> (gh = h \<or> gh = 1) \<and> (gw = w \<or> gw = 1)
              then Inr (stretch gh gw h w g)
              else Inl ValueError))"

text \<open>\<^verbatim>\<open>a[c,:,:] = g\<close> on an array \<open>a\<close> of channels of \<open>h\<close> rows and \<open>w\<close> columns.\<close>

definition assign_channel :: "nat \<Rightarrow> nat \<Rightarrow> nat \<Rightarrow> grid \<Rightarrow> grid list \<Rightarrow> error + grid list" where
  "assign_channel c h w g a =
     (if c < length a then and_then (broadcast2 h w g) (\<lambda>g'. Inr (a[c := g']))
      else Inl IndexError)"

text \<open>Line 111 and the paths of lines 122, 136 and 173.\<close>

definition ty_name :: "env \<Rightarrow> idx_row \<Rightarrow> string" where
  "ty_name env r = year_str env (The_starting_time r) @ ''.'' @ Typhoon r"

definition pkl_path :: "string \<Rightarrow> string \<Rightarrow> string \<Rightarrow> string \<Rightarrow> string" where
  "pkl_path folder datatype tyn file_time =
     os_path_join (os_path_join folder datatype) (tyn @ ''.'' @ file_time @ ''.pkl'')"

text \<open>Lines 120 to 131: frame \<open>j\<close> of the inputs.\<close>

definition assemble_input_frame :: "env \<Rightarrow> TyDataset \<Rightarrow> idx_row \<Rightarrow> int \<Rightarrow> int \<Rightarrow> error + grid list" where
  "assemble_input_frame env ds r tmp_idx j =
     (let h = snd (I_shape ds); w = fst (I_shape ds);
          file_time = strftime env (The_starting_time r + minutes (10 * (tmp_idx + j)));
          data_path = pkl_path (radar_wrangled_data_folder ds) ''RAD'' (ty_name env r) file_time
      in and_then (read_pickle env data_path (compression ds) (Some (I_y ds, I_x ds))) (\<lambda>g.
         and_then (assign_channel 0 h w g (np_zeros (input_channels ds) h w)) (\<lambda>f0.
         if input_with_grid ds then
           and_then (assign_channel 1 h w (gird_x w h) f0) (\<lambda>f1.
           assign_channel 2 h w (gird_y w h) f1)
         else Inr f0)))"

text \<open>Lines 133 to 144: the radar map. The channel counter is still 0 when the first grid is
  written and 1 when the second is.\<close>

definition assemble_radar_map :: "env \<Rightarrow> TyDataset \<Rightarrow> idx_row \<Rightarrow> int \<Rightarrow> error + grid list" where
  "assemble_radar_map env ds r tmp_idx =
     (let h = snd (O_shape ds); w = fst (O_shape ds);
          file_time = strftime env
            (The_starting_time r + minutes (10 * (tmp_idx + input_frames ds - 1)));
          data_path = pkl_path (radar_wrangled_data_folder ds) ''RAD'' (ty_name env r) file_time
      in and_then (read_pickle env data_path (compression ds) None) (\<lambda>g.
         and_then (assign_channel 0 h w g (np_zeros (input_channels ds) h w)) (\<lambda>m0.
         if input_with_grid ds then
           and_then (assign_channel 0 h w (gird_x w h) m0) (\<lambda>m1.
           assign_channel 1 h w (gird_y w h) m1)
         else Inr m0)))"

text \<open>Lines 159 to 162: the columns \<^verbatim>\<open>[0, 1, -1]\<close>, or all but the last.\<close>

definition select_columns :: "bool \<Rightarrow> fnum list list \<Rightarrow> error + fnum list list" where
  "select_columns catcher rows =
     (if catcher then
        (if list_all (\<lambda>row. 2 \<le> length row) rows
         then Inr (map (\<lambda>row. [row ! 0, row ! 1, last row]) rows)
         else Inl IndexError)
      else Inr (map butlast rows))"

text \<open>Lines 150 to 162, with \<open>tmp_idx\<close> already moved to the first target frame.\<close>

definition assemble_ty_infos :: "env \<Rightarrow> TyDataset \<Rightarrow> idx_row \<Rightarrow> int \<Rightarrow> error + fnum list list" where
  "assemble_ty_infos env ds r tmp_idx =
     (let data_path = os_path_join (ty_info_wrangled_data_folder ds) (ty_name env r @ ''.csv'');
          file_time1 = strftime env (The_starting_time r + minutes (10 * tmp_idx));
          file_time2 = strftime env
            (The_starting_time r + minutes (10 * (tmp_idx + target_frames ds - 1)))
      in and_then (read_ty_infos env data_path file_time1 file_time2)
           (select_columns (catcher_location ds)))"

text \<open>Lines 166 to 174: frame \<open>j\<close> of the targets.\<close>

definition assemble_target_frame :: "env \<Rightarrow> TyDataset \<Rightarrow> idx_row \<Rightarrow> int \<Rightarrow> int \<Rightarrow> error + grid" where
  "assemble_target_frame env ds r tmp_idx j =
     (let datatype = (if target_RAD ds then ''RAD'' else ''QPE'');
          file_time = strftime env (The_starting_time r + minutes (10 * (tmp_idx + j)));
          data_path = pkl_path (radar_wrangled_data_folder ds) datatype (ty_name env r) file_time
      in and_then (read_pickle env data_path (compression ds) (Some (F_y ds, F_x ds)))
           (broadcast2 (snd (F_shape ds)) (fst (F_shape ds))))"

text \<open>Lines 176 to 178: the terrain, scaled by its own minimum and maximum.\<close>

definition assemble_height :: "env \<Rightarrow> TyDataset \<Rightarrow> error + grid" where
  "assemble_height env ds =
     and_then (read_pickle env (os_path_join (radar_folder ds) ''height.pkl'') ''bz2''
                 (Some (I_y ds, I_x ds))) (\<lambda>h.
     and_then (np_min (concat h)) (\<lambda>mn.
     and_then (np_max (concat h)) (\<lambda>mx.
     Inr (map (map (\<lambda>x. fdiv (fsub x mn) (fsub mx mn))) h))))"

text \<open>Lines 105 to 180 for the row \<open>r\<close> the scan found: the dictionary of line 180.\<close>

definition assemble :: "env \<Rightarrow> TyDataset \<Rightarrow> idx_row \<Rightarrow> int \<Rightarrow> error + Sample" where
  "assemble env ds r tmp_idx =
     and_then (frame_indices (input_frames ds)) (\<lambda>js.
     and_then (collect (\<lambda>j. assemble_input_frame env ds r tmp_idx (int j)) js) (\<lambda>input_data.
     and_then (assemble_radar_map env ds r tmp_idx) (\<lambda>rmap.
     and_then (assemble_ty_infos env ds r (tmp_idx + input_frames ds)) (\<lambda>infos.
     and_then (frame_indices (target_frames ds)) (\<lambda>ks.
     and_then (collect (\<lambda>j. assemble_target_frame env ds r (tmp_idx + input_frames ds) (int j)) ks)
       (\<lambda>target_data.
     and_then (assemble_height env ds) (\<lambda>hgt.
     Inr \<lparr> inputs = input_data, targets = target_data, ty_infos = infos, radar_map = rmap,
           current_time = strftime env
             (The_starting_time r + minutes (10 * (tmp_idx + input_frames ds - 1))),
           height = hgt \<rparr>)))))))"

text \<open>
  \<^verbatim>\<open>__getitem__\<close>: the result (\<open>Inr None\<close> when the loop ends without a \<^verbatim>\<open>return\<close>) and
  the dataset object after the call. Line 180 stores the sample in the object before the
  transform is called on it, and line 183 stores the transform's result.
\<close>

definition TyDataset_getitem ::
  "env \<Rightarrow> TyDataset \<Rightarrow> int \<Rightarrow> (error + Sample option) \<times> TyDataset" where
  "TyDataset_getitem env ds idx =
     (case total_frames ds of
        None \<Rightarrow> (Inl AttributeError, ds)
      | Some t \<Rightarrow>
          if idx < t then
            (case scan (idx_df ds) idx of
               None \<Rightarrow> (Inr None, ds)
             | Some (r, tmp_idx) \<Rightarrow>
                 (case assemble env ds r tmp_idx of
                    Inl e \<Rightarrow> (Inl e, ds)
                  | Inr s \<Rightarrow>
                      (case transform ds of
                         None \<Rightarrow> (Inr (Some s), ds \<lparr> sample := Some s \<rparr>)
                       | Some f \<Rightarrow>
                           (case f s of
                              (Inl e, s') \<Rightarrow> (Inl e, ds \<lparr> sample := Some s' \<rparr>)
                            | (Inr s2, s') \<Rightarrow> (Inr (Some s2), ds \<lparr> sample := Some s2 \<rparr>)))))
          else (Inl (AssertionError ''Index is out of the range of the data!''), ds))"

section \<open>Normalisation\<close>

text \<open>
  The value of \<^verbatim>\<open>type(x) == pd.Series or list\<close>: \<^verbatim>\<open>==\<close> binds tighter than \<^verbatim>\<open>or\<close>, so it is
  the comparison when that is true and the class \<^verbatim>\<open>list\<close> otherwise. A class object is
  true in a condition.
\<close>

datatype pyobj = PyBool bool | PyClass pytype

fun truthy :: "pyobj \<Rightarrow> bool" where
  "truthy (PyBool b) = b"
| "truthy (PyClass c) = True"

definition py_or :: "pyobj \<Rightarrow> pyobj \<Rightarrow> pyobj" where
  "py_or x y = (if truthy x then x else y)"

definition type_check :: "stats \<Rightarrow> pyobj" where
  "type_check x = py_or (PyBool (py_type x = T_Series)) (PyClass T_list)"

text \<open>
  \<^verbatim>\<open>Normalize.__init__\<close>: the two assertions, then the fields copied from \<^verbatim>\<open>args\<close>. The
  object is the record of these fields; the model keeps the whole of \<^verbatim>\<open>args\<close>.
\<close>

definition Normalize_init :: "args \<Rightarrow> error + args" where
  "Normalize_init a =
     (if \<not> truthy (type_check (max_values a))
        then Inl (AssertionError ''max_values is a not pd.series or list.'')
      else if \<not> truthy (type_check (min_values a))
        then Inl (AssertionError ''min_values is a not pd.series or list.'')
      else Inr a)"

text \<open>\<open>(x - mn) / (mx - mn)\<close> on every element, and the division of every element by a size.\<close>

definition minmax :: "fnum \<Rightarrow> fnum \<Rightarrow> fnum \<Rightarrow> fnum" where
  "minmax mn mx x = fdiv (fsub x mn) (fsub mx mn)"

definition over :: "nat \<Rightarrow> fnum \<Rightarrow> fnum" where
  "over n x = fdiv x (Fin (of_nat n))"

definition map_grid :: "(fnum \<Rightarrow> fnum) \<Rightarrow> grid \<Rightarrow> grid" where
  "map_grid f g = map (map f) g"

text \<open>\<^verbatim>\<open>a[:,c,:,:] = f(a[:,c,:,:])\<close> on the frames, and \<^verbatim>\<open>a[c,:,:] = f(a[c,:,:])\<close> on the
  channels of one frame: the subscript raises when there is no channel \<open>c\<close>.\<close>

definition update_frames :: "nat \<Rightarrow> (fnum \<Rightarrow> fnum) \<Rightarrow> grid list list \<Rightarrow> error + grid list list" where
  "update_frames c f a =
     (if list_all (\<lambda>fr. c < length fr) a
      then Inr (map (\<lambda>fr. fr[c := map_grid f (fr ! c)]) a)
      else Inl IndexError)"

definition update_channel :: "nat \<Rightarrow> (fnum \<Rightarrow> fnum) \<Rightarrow> grid list \<Rightarrow> error + grid list" where
  "update_channel c f a =
     (if c < length a then Inr (a[c := map_grid f (a ! c)]) else Inl IndexError)"

text \<open>The two bounds of a field, read in the order the expression reads them.\<close>

definition bounds :: "args \<Rightarrow> string \<Rightarrow> error + (fnum \<times> fnum)" where
  "bounds self field =
     and_then (getitem (min_values self) field) (\<lambda>mn.
     and_then (getitem (max_values self) field) (\<lambda>mx. Inr (mn, mx)))"

text \<open>Line 218 on the sample object: the array is read first, then the bounds.\<close>

definition normalize_inputs :: "args \<Rightarrow> Sample \<Rightarrow> error + Sample" where
  "normalize_inputs self s =
     (if list_all (\<lambda>fr. 0 < length fr) (inputs s) then
        and_then (bounds self ''RAD'') (\<lambda>(mn, mx).
        and_then (update_frames 0 (minmax mn mx) (inputs s)) (\<lambda>a. Inr (s \<lparr> inputs := a \<rparr>)))
      else Inl IndexError)"

text \<open>Lines 222 and 224, each on the sample object as the line before left it.\<close>

definition normalize_inputs_x :: "args \<Rightarrow> Sample \<Rightarrow> error + Sample" where
  "normalize_inputs_x self s =
     and_then (update_frames 1 (over (fst (I_shape self))) (inputs s))
       (\<lambda>a. Inr (s \<lparr> inputs := a \<rparr>))"

definition normalize_inputs_y :: "args \<Rightarrow> Sample \<Rightarrow> error + Sample" where
  "normalize_inputs_y self s =
     and_then (update_frames 2 (over (snd (I_shape self))) (inputs s))
       (\<lambda>a. Inr (s \<lparr> inputs := a \<rparr>))"

text \<open>Lines 227 to 231: a new array, bound to the local name only.\<close>

definition normalize_targets :: "args \<Rightarrow> grid list \<Rightarrow> error + grid list" where
  "normalize_targets self target_data =
     (if normalize_target self then
        and_then (bounds self (if target_RAD self then ''RAD'' else ''QPE'')) (\<lambda>(mn, mx).
        Inr (map (map_grid (minmax mn mx)) target_data))
      else Inr target_data)"

text \<open>Lines 235, 239 and 241 on the sample object; the grids are divided by the sizes of the
  input window.\<close>

definition normalize_radar_map :: "args \<Rightarrow> Sample \<Rightarrow> error + Sample" where
  "normalize_radar_map self s =
     (if 0 < length (radar_map s) then
        and_then (bounds self ''RAD'') (\<lambda>(mn, mx).
        and_then (update_channel 0 (minmax mn mx) (radar_map s)) (\<lambda>a. Inr (s \<lparr> radar_map := a \<rparr>)))
      else Inl IndexError)"

definition normalize_radar_map_x :: "args \<Rightarrow> Sample \<Rightarrow> error + Sample" where
  "normalize_radar_map_x self s =
     and_then (update_channel 1 (over (fst (I_shape self))) (radar_map s))
       (\<lambda>a. Inr (s \<lparr> radar_map := a \<rparr>))"

definition normalize_radar_map_y :: "args \<Rightarrow> Sample \<Rightarrow> error + Sample" where
  "normalize_radar_map_y self s =
     and_then (update_channel 2 (over (snd (I_shape self))) (radar_map s))
       (\<lambda>a. Inr (s \<lparr> radar_map := a \<rparr>))"

text \<open>An operation on two vectors, or on a row and a vector: equal lengths, or one of them of
  length one; torch raises on any other pair.\<close>

definition broadcast_vec ::
  "(fnum \<Rightarrow> fnum \<Rightarrow> fnum) \<Rightarrow> fnum list \<Rightarrow> fnum list \<Rightarrow> error + fnum list" where
  "broadcast_vec f xs ys =
     (if length xs = length ys then Inr (map2 f xs ys)
      else if length xs = 1 then Inr (map (f (hd xs)) ys)
      else if length ys = 1 then Inr (map (\<lambda>x. f x (hd ys)) xs)
      else Inl RuntimeError)"

text \<open>Lines 244 to 246: the statistics from the label \<^verbatim>\<open>Lat\<close> on, then the three operations
  in the order Python evaluates them. The track features are a tensor, as \<^verbatim>\<open>ToTensor\<close>
  leaves them: on the numpy array \<^verbatim>\<open>__getitem__\<close> builds, the subtraction of a tensor
  raises \<^verbatim>\<open>TypeError\<close>, which the single value for array and tensor does not show.\<close>

definition normalize_ty_infos :: "args \<Rightarrow> fnum list list \<Rightarrow> error + fnum list list" where
  "normalize_ty_infos self infos =
     and_then (loc_from (min_values self) ''Lat'') (\<lambda>mn.
     and_then (loc_from (max_values self) ''Lat'') (\<lambda>mx.
     and_then (collect (\<lambda>i. broadcast_vec fsub (infos ! i) mn) [0..<length infos]) (\<lambda>num.
     and_then (broadcast_vec fsub mx mn) (\<lambda>den.
     collect (\<lambda>i. broadcast_vec fdiv (num ! i) den) [0..<length num]))))"

text \<open>
  The statements that write to the sample object, one after another: the exception of the
  first that raises, if any, and the object as the statements before it left it.
\<close>

fun run_stmts :: "(Sample \<Rightarrow> error + Sample) list \<Rightarrow> Sample \<Rightarrow> error option \<times> Sample" where
  "run_stmts [] s = (None, s)"
| "run_stmts (f # fs) s = (case f s of Inl e \<Rightarrow> (Some e, s) | Inr s' \<Rightarrow> run_stmts fs s')"

text \<open>
  \<^verbatim>\<open>Normalize.__call__\<close>: its result and the sample object after the call. The dictionary
  of line 249 reads the name \<^verbatim>\<open>height\<close>, which no statement of the method, no global of the
  module and no builtin binds: its evaluation raises \<^verbatim>\<open>NameError\<close>.
\<close>

definition Normalize_call :: "args \<Rightarrow> Sample \<Rightarrow> (error + Sample) \<times> Sample" where
  "Normalize_call self smp =
     (case run_stmts
             (normalize_inputs self #
              (if input_with_grid self
               then [normalize_inputs_x self, normalize_inputs_y self] else []))
             smp of
        (Some e, s1) \<Rightarrow> (Inl e, s1)
      | (None, s1) \<Rightarrow>
          (case normalize_targets self (targets s1) of
             Inl e \<Rightarrow> (Inl e, s1)
           | Inr target_data \<Rightarrow>
               (case run_stmts
                       (normalize_radar_map self #
                        (if input_with_grid self
                         then [normalize_radar_map_x self, normalize_radar_map_y self] else []))
                       s1 of
                  (Some e, s2) \<Rightarrow> (Inl e, s2)
                | (None, s2) \<Rightarrow>
                    (case normalize_ty_infos self (ty_infos s2) of
                       Inl e \<Rightarrow> (Inl e, s2)
                     | Inr infos \<Rightarrow> (Inl (NameError ''height''), s2)))))"

text \<open>Channel 0 of every input frame of a sample.\<close>

definition primary :: "Sample \<Rightarrow> grid list" where
  "primary s = map (\<lambda>fr. fr ! 0) (inputs s)"

section \<open>A concrete scenario\<close>

text \<open>
  Two events: \<open>A\<close> issued 2020-01-01 00:00 and cancelled 02:00, \<open>B\<close> issued 2020-02-01 00:00
  and cancelled 01:00 (seconds since 1970-01-01), with three input frames and two target
  frames. \<open>arange\<close> is a generator whose permutation is the identity.
\<close>

definition scenario_table :: "ty_row list" where
  "scenario_table =
     [\<lparr> En_name = ''A'', Time_of_issuing = 1577836800, Time_of_canceling = 1577844000 \<rparr>,
      \<lparr> En_name = ''B'', Time_of_issuing = 1580515200, Time_of_canceling = 1580518800 \<rparr>]"

definition scenario_stats_min :: stats where
  "scenario_stats_min = Series [(''RAD'', Fin 0), (''QPE'', Fin 0), (''Lat'', Fin 0), (''Lon'', Fin 0)]"

definition scenario_stats_max :: stats where
  "scenario_stats_max =
     Series [(''RAD'', Fin 100), (''QPE'', Fin 50), (''Lat'', Fin 90), (''Lon'', Fin 180)]"

definition scenario_args :: args where
  "scenario_args =
     \<lparr> ty_list = scenario_table, radar_folder = ''radar'',
       radar_wrangled_data_folder = ''wrangled'', weather_wrangled_data_folder = ''weather'',
       ty_info_wrangled_data_folder = ''ty_info'', weather_list = [],
       input_with_grid = False, input_frames = 3, target_frames = 2, input_channels = 1,
       I_x = (0, 1), I_y = (0, 1), I_shape = (2, 2),
       F_x = (0, 1), F_y = (0, 1), F_shape = (2, 2), O_shape = (2, 2),
       compression = ''bz2'', target_RAD = True, catcher_location = False,
       max_values = scenario_stats_max, min_values = scenario_stats_min,
       normalize_target = True \<rparr>"

definition arange :: "nat \<Rightarrow> nat list" where
  "arange n = [0..<n]"

definition scenario_rows :: "idx_row list" where
  "scenario_rows =
     [\<lparr> Typhoon = ''A'', The_starting_time = 1577836800, The_ending_time = 1577841600,
        The_starting_idx = 0, The_ending_idx = 8 \<rparr>,
      \<lparr> Typhoon = ''B'', The_starting_time = 1580515200, The_ending_time = 1580516400,
        The_starting_idx = 9, The_ending_idx = 11 \<rparr>]"

definition scenario_ds :: TyDataset where
  "scenario_ds =
     args.extend scenario_args
       \<lparr> transform = None, events_list = [''A'', ''B''], idx_df = scenario_rows,
         total_frames = Some 12, sample = None \<rparr>"

text \<open>
  Two events too short for the window of five frames: \<open>C\<close> is cancelled 35 minutes after it
  is issued, five minutes short of the window; \<open>D\<close> after 20 minutes, two steps short.
\<close>

definition late_args :: args where
  "late_args = scenario_args
     \<lparr> ty_list := [\<lparr> En_name = ''C'', Time_of_issuing = 1577836800,
                      Time_of_canceling = 1577838900 \<rparr>] \<rparr>"


text \<open>
  An environment in which every file exists: every field read is the same grid of two rows
  and two columns, every table of track features the same two rows, and the calendar
  renders every time alike.
\<close>

definition env0 :: env where
  "env0 =
     \<lparr> strftime = (\<lambda>t. ''202001010020''), year_str = (\<lambda>t. ''2020''),
       read_pickle = (\<lambda>path comp crop. Inr [[Fin 1, Fin 2], [Fin 3, Fin 4]]),
       read_ty_infos = (\<lambda>path t1 t2. Inr [[Fin 1, Fin 2, Fin 3], [Fin 4, Fin 5, Fin 6]]) \<rparr>"

text \<open>The sample the scenario's dataset assembles in this environment, at any index.\<close>

definition scenario_sample :: Sample where
  "scenario_sample =
     \<lparr> inputs = replicate 3 [[[Fin 1, Fin 2], [Fin 3, Fin 4]]],
       targets = replicate 2 [[Fin 1, Fin 2], [Fin 3, Fin 4]],
       ty_infos = [[Fin 1, Fin 2], [Fin 4, Fin 5]],
       radar_map = [[[Fin 1, Fin 2], [Fin 3, Fin 4]]],
       current_time = ''202001010020'',
       height = [[Fin 0, Fin (1 / 3)], [Fin (2 / 3), Fin 1]] \<rparr>"

text \<open>The scenario with the grid channels enabled, on three channels.\<close>

definition grid_args :: args where
  "grid_args = scenario_args \<lparr> input_with_grid := True, input_channels := 3 \<rparr>"

definition grid_ds :: TyDataset where
  "grid_ds =
     args.extend grid_args
       \<lparr> transform = None, events_list = [''A'', ''B''], idx_df = scenario_rows,
         total_frames = Some 12, sample = None \<rparr>"

text \<open>Statistics whose maximum equals the minimum in every field.\<close>

definition degenerate_args :: args where
  "degenerate_args = scenario_args \<lparr> max_values := scenario_stats_min \<rparr>"

section \<open>The arithmetic of the frame count\<close>

lemma rat_span: "(of_int (d div 86400) * 24 * 6 + of_int (d mod 86400) / 600 :: rat) = of_int d / 600"
proof -
  have "d = 86400 * (d div 86400) + d mod 86400" by simp
  then have "(of_int d :: rat) = 86400 * of_int (d div 86400) + of_int (d mod 86400)"
    by (metis of_int_add of_int_mult of_int_numeral)
  then show ?thesis by (simp add: field_simps)
qed

lemma py_int_div: "py_int (of_int d / 600) = (if 0 \<le> d then d div 600 else - ((- d) div 600))"
proof (cases "0 \<le> d")
  case True
  have "\<lfloor>(of_int d / of_int 600 :: rat)\<rfloor> = d div 600" by (rule floor_divide_of_int_eq)
  with True show ?thesis by (simp add: py_int_def)
next
  case False
  then have neg: "(of_int d / 600 :: rat) < 0" by (simp add: field_simps)
  have "\<lceil>(of_int d / 600 :: rat)\<rceil> = - \<lfloor>- (of_int d / 600 :: rat)\<rfloor>" by (simp add: ceiling_def)
  also have "- (of_int d / 600 :: rat) = of_int (- d) / of_int 600" by simp
  also have "\<lfloor>(of_int (- d) / of_int 600 :: rat)\<rfloor> = (- d) div 600" by (rule floor_divide_of_int_eq)
  finally show ?thesis using False neg by (simp add: py_int_def)
qed

lemma frame_span_eq:
  "frame_span s e = (if s \<le> e then (e - s) div 600 else - ((s - e) div 600))"
  unfolding frame_span_def td_days_def td_seconds_def rat_span py_int_div by simp

lemma default_split: "py_int (of_nat n / 4 * 3) = int ((3 * n) div 4)"
proof -
  have "(of_nat n / 4 * 3 :: rat) = of_int (int (3 * n)) / of_int 4" by simp
  then have "\<lfloor>(of_nat n / 4 * 3 :: rat)\<rfloor> = int (3 * n) div 4"
    by (simp only: floor_divide_of_int_eq)
  moreover have "0 \<le> (of_nat n / 4 * 3 :: rat)" by simp
  ultimately show ?thesis by (simp add: py_int_def zdiv_int)
qed

section \<open>The index table\<close>

lemma build_idx_Cons:
  assumes "build_idx tab nin ntg (i # evs) tmp tot = Inr (tot', rows)"
  obtains r rows' where "ty_loc tab i = Inr r"
    and "build_idx tab nin ntg evs (tmp + valid_window_count nin ntg r)
           (Some (tmp + valid_window_count nin ntg r)) = Inr (tot', rows')"
    and "rows = \<lparr> Typhoon = i, The_starting_time = Time_of_issuing r,
                   The_ending_time = adjusted_cancel nin ntg r, The_starting_idx = tmp,
                   The_ending_idx = tmp + valid_window_count nin ntg r - 1 \<rparr> # rows'"
proof (cases "ty_loc tab i")
  case (Inl e)
  with assms show ?thesis by simp
next
  case (Inr r)
  show ?thesis
  proof (cases "build_idx tab nin ntg evs (tmp + valid_window_count nin ntg r)
           (Some (tmp + valid_window_count nin ntg r))")
    case (Inl e)
    with assms Inr show ?thesis
      by (simp add: Let_def valid_window_count_def add.assoc)
  next
    case (Inr p)
    obtain t' rs where p: "p = (t', rs)" by (cases p)
    from assms \<open>ty_loc tab i = Inr r\<close> Inr p that [of r rs] show ?thesis
      by (simp add: Let_def valid_window_count_def add.assoc)
  qed
qed

lemma build_idx_names:
  "build_idx tab nin ntg evs tmp tot = Inr (tot', rows) \<Longrightarrow> map Typhoon rows = evs"
proof (induction evs arbitrary: tmp tot tot' rows)
  case Nil
  then show ?case by simp
next
  case (Cons i evs)
  from Cons.prems show ?case
    by (rule build_idx_Cons) (simp add: Cons.IH)
qed

lemma build_idx_chain:
  "build_idx tab nin ntg evs tmp tot = Inr (tot', rows) \<Longrightarrow> chain tmp rows"
proof (induction evs arbitrary: tmp tot tot' rows)
  case Nil
  then show ?case by simp
next
  case (Cons i evs)
  from Cons.prems show ?case
  proof (rule build_idx_Cons)
    fix r rows'
    assume "build_idx tab nin ntg evs (tmp + valid_window_count nin ntg r)
           (Some (tmp + valid_window_count nin ntg r)) = Inr (tot', rows')"
    then have "chain (tmp + valid_window_count nin ntg r) rows'" by (rule Cons.IH)
    moreover assume "rows = \<lparr> Typhoon = i, The_starting_time = Time_of_issuing r,
                   The_ending_time = adjusted_cancel nin ntg r, The_starting_idx = tmp,
                   The_ending_idx = tmp + valid_window_count nin ntg r - 1 \<rparr> # rows'"
    ultimately show ?thesis by simp
  qed
qed

lemma build_idx_rows:
  "build_idx tab nin ntg evs tmp tot = Inr (tot', rows) \<Longrightarrow> r \<in> set rows \<Longrightarrow>
   \<exists>ev. ty_loc tab (Typhoon r) = Inr ev \<and> The_starting_time r = Time_of_issuing ev \<and>
        The_ending_time r = adjusted_cancel nin ntg ev \<and>
        row_count r = valid_window_count nin ntg ev"
proof (induction evs arbitrary: tmp tot tot' rows)
  case Nil
  then show ?case by simp
next
  case (Cons i evs)
  from Cons.prems(1) show ?case
  proof (rule build_idx_Cons)
    fix ev rows'
    assume loc: "ty_loc tab i = Inr ev"
      and rec: "build_idx tab nin ntg evs (tmp + valid_window_count nin ntg ev)
           (Some (tmp + valid_window_count nin ntg ev)) = Inr (tot', rows')"
      and rows: "rows = \<lparr> Typhoon = i, The_starting_time = Time_of_issuing ev,
                   The_ending_time = adjusted_cancel nin ntg ev, The_starting_idx = tmp,
                   The_ending_idx = tmp + valid_window_count nin ntg ev - 1 \<rparr> # rows'"
    show ?thesis
    proof (cases "r \<in> set rows'")
      case True
      with rec show ?thesis by (rule Cons.IH)
    next
      case False
      with Cons.prems(2) rows loc show ?thesis by (auto simp: row_count_def)
    qed
  qed
qed

lemma build_idx_total:
  "build_idx tab nin ntg evs tmp tot = Inr (tot', rows) \<Longrightarrow>
   tot' = (if evs = [] then tot else Some (tmp + sum_list (map row_count rows)))"
proof (induction evs arbitrary: tmp tot tot' rows)
  case Nil
  then show ?case by simp
next
  case (Cons i evs)
  from Cons.prems(1) show ?case
  proof (rule build_idx_Cons)
    fix ev rows'
    assume rec: "build_idx tab nin ntg evs (tmp + valid_window_count nin ntg ev)
           (Some (tmp + valid_window_count nin ntg ev)) = Inr (tot', rows')"
      and rows: "rows = \<lparr> Typhoon = i, The_starting_time = Time_of_issuing ev,
                   The_ending_time = adjusted_cancel nin ntg ev, The_starting_idx = tmp,
                   The_ending_idx = tmp + valid_window_count nin ntg ev - 1 \<rparr> # rows'"
    from Cons.IH [OF rec] have "tot' = (if evs = [] then Some (tmp + valid_window_count nin ntg ev)
        else Some (tmp + valid_window_count nin ntg ev + sum_list (map row_count rows')))" .
    moreover from rec have "evs = [] \<Longrightarrow> rows' = []" by simp
    ultimately show ?thesis using rows by (simp add: row_count_def)
  qed
qed

lemma chain_lower:
  "chain t rows \<Longrightarrow> \<forall>r\<in>set rows. 0 < row_count r \<Longrightarrow> r \<in> set rows \<Longrightarrow> t \<le> The_starting_idx r"
proof (induction rows arbitrary: t)
  case Nil
  then show ?case by simp
next
  case (Cons x xs)
  show ?case
  proof (cases "r = x")
    case True
    with Cons.prems show ?thesis by simp
  next
    case False
    with Cons.prems have "r \<in> set xs" by simp
    moreover from Cons.prems have "chain (The_ending_idx x + 1) xs" by simp
    ultimately have "The_ending_idx x + 1 \<le> The_starting_idx r"
      using Cons.IH Cons.prems(2) by simp
    moreover from Cons.prems have "0 < row_count x" "The_starting_idx x = t" by simp_all
    ultimately show ?thesis by (simp add: row_count_def)
  qed
qed

lemma row_end: "The_ending_idx r + 1 = The_starting_idx r + row_count r"
  by (simp add: row_count_def)

lemma chain_upper:
  "chain t rows \<Longrightarrow> \<forall>r\<in>set rows. 0 < row_count r \<Longrightarrow> r \<in> set rows \<Longrightarrow>
   The_ending_idx r < t + sum_list (map row_count rows)"
proof (induction rows arbitrary: t)
  case Nil
  then show ?case by simp
next
  case (Cons x xs)
  have nonneg: "0 \<le> sum_list (map row_count xs)"
    using Cons.prems(2) by (intro sum_list_nonneg) auto
  from Cons.prems have start: "The_starting_idx x = t" by simp
  show ?case
  proof (cases "r = x")
    case True
    with nonneg start row_end [of x] show ?thesis by simp
  next
    case False
    with Cons.prems have "r \<in> set xs" by simp
    moreover from Cons.prems have "chain (The_ending_idx x + 1) xs" by simp
    ultimately have "The_ending_idx r < The_ending_idx x + 1 + sum_list (map row_count xs)"
      using Cons.IH Cons.prems(2) by simp
    with start row_end [of x] show ?thesis by simp
  qed
qed

lemma scan_of_row:
  "chain t rows \<Longrightarrow> \<forall>r\<in>set rows. 0 < row_count r \<Longrightarrow> r \<in> set rows \<Longrightarrow>
   The_starting_idx r \<le> idx \<Longrightarrow> idx \<le> The_ending_idx r \<Longrightarrow>
   scan rows idx = Some (r, idx - The_starting_idx r)"
proof (induction rows arbitrary: t)
  case Nil
  then show ?case by simp
next
  case (Cons x xs)
  show ?case
  proof (cases "r = x")
    case True
    with Cons.prems show ?thesis by simp
  next
    case False
    with Cons.prems have in_xs: "r \<in> set xs" by simp
    from Cons.prems have ch: "chain (The_ending_idx x + 1) xs" by simp
    have "The_ending_idx x + 1 \<le> The_starting_idx r"
      using chain_lower [OF ch _ in_xs] Cons.prems(2) by simp
    with Cons.prems have "idx > The_ending_idx x" by simp
    then show ?thesis
      using Cons.IH [OF ch _ in_xs] Cons.prems by simp
  qed
qed

lemma scan_in_range:
  "chain t rows \<Longrightarrow> \<forall>r\<in>set rows. 0 < row_count r \<Longrightarrow> t \<le> idx \<Longrightarrow>
   idx < t + sum_list (map row_count rows) \<Longrightarrow>
   \<exists>r\<in>set rows. The_starting_idx r \<le> idx \<and> idx \<le> The_ending_idx r"
proof (induction rows arbitrary: t)
  case Nil
  then show ?case by simp
next
  case (Cons x xs)
  from Cons.prems have start: "The_starting_idx x = t" by simp
  show ?case
  proof (cases "idx \<le> The_ending_idx x")
    case True
    with Cons.prems(3) start show ?thesis by auto
  next
    case False
    from Cons.prems have ch: "chain (The_ending_idx x + 1) xs" by simp
    from Cons.prems(4) start row_end [of x]
    have "idx < The_ending_idx x + 1 + sum_list (map row_count xs)" by simp
    moreover from False have "The_ending_idx x + 1 \<le> idx" by simp
    moreover from Cons.prems(2) have "\<forall>r\<in>set xs. 0 < row_count r" by simp
    ultimately obtain r where "r \<in> set xs" "The_starting_idx r \<le> idx" "idx \<le> The_ending_idx r"
      using Cons.IH [OF ch] by blast
    then show ?thesis by auto
  qed
qed

lemma chain_union:
  assumes "chain t rows" and "\<forall>r\<in>set rows. 0 < row_count r"
  shows "(\<Union>r\<in>set rows. {The_starting_idx r..The_ending_idx r}) = {t..<t + sum_list (map row_count rows)}"
proof (rule set_eqI, rule iffI)
  fix idx
  assume "idx \<in> (\<Union>r\<in>set rows. {The_starting_idx r..The_ending_idx r})"
  then obtain r where r: "r \<in> set rows" "The_starting_idx r \<le> idx" "idx \<le> The_ending_idx r"
    by auto
  with chain_lower [OF assms r(1)] chain_upper [OF assms r(1)]
  show "idx \<in> {t..<t + sum_list (map row_count rows)}" by simp
next
  fix idx
  assume "idx \<in> {t..<t + sum_list (map row_count rows)}"
  then have "t \<le> idx" "idx < t + sum_list (map row_count rows)" by simp_all
  from scan_in_range [OF assms this]
  show "idx \<in> (\<Union>r\<in>set rows. {The_starting_idx r..The_ending_idx r})" by auto
qed

lemma chain_nth:
  "chain t rows \<Longrightarrow> k < length rows \<Longrightarrow>
   The_starting_idx (rows ! k) = (if k = 0 then t else The_ending_idx (rows ! (k - 1)) + 1)"
proof (induction rows arbitrary: t k)
  case Nil
  then show ?case by simp
next
  case (Cons x xs)
  show ?case
  proof (cases k)
    case 0
    with Cons.prems show ?thesis by simp
  next
    case (Suc j)
    with Cons.prems have "j < length xs" "chain (The_ending_idx x + 1) xs" by simp_all
    from Cons.IH [OF this(2) this(1)] Suc show ?thesis
      by (cases j) simp_all
  qed
qed

lemma chain_ordered:
  "chain t rows \<Longrightarrow> \<forall>r\<in>set rows. 0 < row_count r \<Longrightarrow> j < k \<Longrightarrow> k < length rows \<Longrightarrow>
   The_ending_idx (rows ! j) < The_starting_idx (rows ! k)"
proof (induction rows arbitrary: t j k)
  case Nil
  then show ?case by simp
next
  case (Cons x xs)
  from Cons.prems(3) obtain k' where k: "k = Suc k'" by (cases k) auto
  from Cons.prems(1) have ch: "chain (The_ending_idx x + 1) xs" by simp
  from Cons.prems(2) have pos: "\<forall>r\<in>set xs. 0 < row_count r" by simp
  from Cons.prems(4) k have k': "k' < length xs" by simp
  show ?case
  proof (cases j)
    case 0
    from k' have "xs ! k' \<in> set xs" by simp
    from chain_lower [OF ch pos this] have "The_ending_idx x < The_starting_idx (xs ! k')" by simp
    with 0 k show ?thesis by simp
  next
    case (Suc j')
    with Cons.prems(3) k have "j' < k'" by simp
    from Cons.IH [OF ch pos this k'] Suc k show ?thesis by simp
  qed
qed

lemma filter_single_index:
  assumes "filter P xs = [x]" and "p < length xs" and "q < length xs"
    and "P (xs ! p)" and "P (xs ! q)"
  shows "p = q"
proof -
  from assms(1) obtain us vs where xs: "xs = us @ x # vs"
    and us: "\<forall>u\<in>set us. \<not> P u" and vs: "filter P vs = []"
    by (auto simp: filter_eq_Cons_iff)
  have at: "i = length us" if "i < length xs" "P (xs ! i)" for i
  proof (rule ccontr)
    assume ne: "i \<noteq> length us"
    show False
    proof (cases "i < length us")
      case True
      then have "xs ! i \<in> set us" by (simp add: xs nth_append)
      with us that show False by blast
    next
      case False
      with ne have gt: "length us < i" by simp
      then have "xs ! i = vs ! (i - length us - 1)"
        by (simp add: xs nth_append nth_Cons')
      moreover from gt that(1) have "i - length us - 1 < length vs" by (simp add: xs)
      ultimately have "xs ! i \<in> set vs" by simp
      with vs that(2) show False by (simp add: filter_empty_conv)
    qed
  qed
  from at [OF assms(2,4)] at [OF assms(3,5)] show ?thesis by simp
qed

lemma ty_loc_filter:
  "ty_loc tab i = Inr r \<Longrightarrow> filter (\<lambda>r. En_name r = i) tab = [r]"
  by (auto simp: ty_loc_def split: list.splits)

lemma selected_names_distinct:
  assumes "distinct ps" and "\<forall>p\<in>set ps. p < length tab"
    and "\<forall>p\<in>set ps. \<exists>r. ty_loc tab (En_name (tab ! p)) = Inr r"
  shows "distinct (map (\<lambda>p. En_name (tab ! p)) ps)"
proof -
  have "inj_on (\<lambda>p. En_name (tab ! p)) (set ps)"
  proof (rule inj_onI)
    fix p q
    assume p: "p \<in> set ps" and q: "q \<in> set ps"
      and eq: "En_name (tab ! p) = En_name (tab ! q)"
    from assms(3) p obtain r where "ty_loc tab (En_name (tab ! p)) = Inr r" by blast
    then have "filter (\<lambda>r. En_name r = En_name (tab ! p)) tab = [r]" by (rule ty_loc_filter)
    moreover from assms(2) p q have "p < length tab" "q < length tab" by blast+
    moreover have "En_name (tab ! p) = En_name (tab ! p)" ..
    moreover from eq have "En_name (tab ! q) = En_name (tab ! p)" by (rule sym)
    ultimately show "p = q" by (rule filter_single_index)
  qed
  with assms(1) show ?thesis by (simp add: distinct_map)
qed

lemma init_Inr:
  assumes "TyDataset_init choice (Some a) train k tr = Inr ds"
  obtains ps evs tot rows where
    "events_num (choice (length (ty_list a))) (length (ty_list a)) train k = Inr ps"
    "index_take (ty_list a) ps = Inr evs"
    "build_idx (ty_list a) (input_frames a) (target_frames a) evs 0 None = Inr (tot, rows)"
    "ds = args.extend a \<lparr> transform = tr, events_list = evs, idx_df = rows,
                            total_frames = tot, sample = None \<rparr>"
proof (cases "events_num (choice (length (ty_list a))) (length (ty_list a)) train k")
  case (Inl e)
  with assms show ?thesis by (simp add: TyDataset_init_def)
next
  case ps: (Inr ps)
  show ?thesis
  proof (cases "index_take (ty_list a) ps")
    case (Inl e)
    with assms ps show ?thesis by (simp add: TyDataset_init_def)
  next
    case evs: (Inr evs)
    show ?thesis
    proof (cases "build_idx (ty_list a) (input_frames a) (target_frames a) evs 0 None")
      case (Inl e)
      with assms ps evs show ?thesis by (simp add: TyDataset_init_def)
    next
      case (Inr p)
      obtain tot rows where p: "p = (tot, rows)" by (cases p)
      from assms ps evs Inr p that [of ps evs tot rows] show ?thesis
        by (simp add: TyDataset_init_def)
    qed
  qed
qed

lemma extend_fields:
  "ty_list (args.extend a m) = ty_list a"
  "input_frames (args.extend a m) = input_frames a"
  "target_frames (args.extend a m) = target_frames a"
  by (simp_all add: args.defs)

lemma extend_own_fields:
  "events_list (args.extend a \<lparr> transform = tr, events_list = evs, idx_df = rows,
      total_frames = tot, sample = sm \<rparr>) = evs"
  "idx_df (args.extend a \<lparr> transform = tr, events_list = evs, idx_df = rows,
      total_frames = tot, sample = sm \<rparr>) = rows"
  "total_frames (args.extend a \<lparr> transform = tr, events_list = evs, idx_df = rows,
      total_frames = tot, sample = sm \<rparr>) = tot"
  by (simp_all add: args.defs)

lemma events_num_distinct:
  "events_num rt n train k = Inr ps \<Longrightarrow> distinct rt \<Longrightarrow> distinct ps"
  by (auto simp: events_num_def slice_to_def slice_from_def split: if_splits option.splits)

lemma events_num_subset:
  "events_num rt n train k = Inr ps \<Longrightarrow> set ps \<subseteq> set rt"
  by (auto simp: events_num_def slice_to_def slice_from_def split: if_splits option.splits
      dest: in_set_takeD in_set_dropD)

lemma index_take_Inr:
  "index_take tab ps = Inr evs \<Longrightarrow>
   evs = map (\<lambda>p. En_name (tab ! p)) ps \<and> (\<forall>p\<in>set ps. p < length tab)"
  by (auto simp: index_take_def list_all_iff split: if_splits)

lemma resolve_in_range:
  assumes rows: "idx_df ds = rows" and tot: "total_frames ds = Some T"
    and ch: "chain 0 rows" and pos: "\<forall>r\<in>set rows. 0 < row_count r"
    and T: "T = sum_list (map row_count rows)"
    and idx: "0 \<le> idx" "idx < T"
  shows "\<exists>r\<in>set rows. The_starting_idx r \<le> idx \<and> idx \<le> The_ending_idx r \<and>
           resolve ds idx = Inr (Some (Typhoon r, idx - The_starting_idx r))"
proof -
  from idx T have "idx < 0 + sum_list (map row_count rows)" by simp
  from scan_in_range [OF ch pos idx(1) this]
  obtain r where r: "r \<in> set rows" "The_starting_idx r \<le> idx" "idx \<le> The_ending_idx r"
    by blast
  from scan_of_row [OF ch pos r] have "scan rows idx = Some (r, idx - The_starting_idx r)" .
  with rows tot idx(2) have "resolve ds idx = Inr (Some (Typhoon r, idx - The_starting_idx r))"
    by (simp add: resolve_def)
  with r show ?thesis by blast
qed

lemma resolve_bij:
  assumes rows: "idx_df ds = rows" and tot: "rows \<noteq> [] \<longrightarrow> total_frames ds = Some T"
    and ch: "chain 0 rows" and pos: "\<forall>r\<in>set rows. 0 < row_count r"
    and T: "T = sum_list (map row_count rows)"
    and dist: "distinct (map Typhoon rows)"
  shows "bij_betw (resolve ds) {0..<T}
           ((\<lambda>p. Inr (Some p)) ` {(i, off). \<exists>r\<in>set rows. Typhoon r = i \<and> 0 \<le> off \<and> off < row_count r})"
proof (cases "rows = []")
  case True
  with T show ?thesis by (simp add: bij_betw_def)
next
  case False
  from tot False have tot': "total_frames ds = Some T" by simp
  note rir = resolve_in_range [OF rows tot' ch pos T]
  from dist have inj: "inj_on Typhoon (set rows)" by (simp add: distinct_map)
  show ?thesis
    unfolding bij_betw_def
  proof (intro conjI inj_onI set_eqI iffI)
    fix x y
    assume x: "x \<in> {0..<T}" and y: "y \<in> {0..<T}" and eq: "resolve ds x = resolve ds y"
    from x rir [of x] obtain r where r: "r \<in> set rows"
      "resolve ds x = Inr (Some (Typhoon r, x - The_starting_idx r))" by auto
    from y rir [of y] obtain s where s: "s \<in> set rows"
      "resolve ds y = Inr (Some (Typhoon s, y - The_starting_idx s))" by auto
    from eq r(2) s(2) have ty: "Typhoon r = Typhoon s"
      and off: "x - The_starting_idx r = y - The_starting_idx s" by simp_all
    from inj ty r(1) s(1) have "r = s" by (rule inj_onD)
    with off show "x = y" by simp
  next
    fix v :: "error + (string \<times> int) option"
    assume "v \<in> resolve ds ` {0..<T}"
    then obtain x where x: "x \<in> {0..<T}" and v: "v = resolve ds x" by auto
    from x rir [of x] obtain r where r: "r \<in> set rows" "The_starting_idx r \<le> x"
      "x \<le> The_ending_idx r"
      "resolve ds x = Inr (Some (Typhoon r, x - The_starting_idx r))" by auto
    from r(2,3) have "0 \<le> x - The_starting_idx r" "x - The_starting_idx r < row_count r"
      by (simp_all add: row_count_def)
    with r(1) have "(Typhoon r, x - The_starting_idx r) \<in>
      {(i, off). \<exists>r\<in>set rows. Typhoon r = i \<and> 0 \<le> off \<and> off < row_count r}" by blast
    with v r(4) show "v \<in> (\<lambda>p. Inr (Some p)) `
      {(i, off). \<exists>r\<in>set rows. Typhoon r = i \<and> 0 \<le> off \<and> off < row_count r}"
      by (simp only: image_eqI)
  next
    fix v :: "error + (string \<times> int) option"
    assume "v \<in> (\<lambda>p. Inr (Some p)) `
      {(i, off). \<exists>r\<in>set rows. Typhoon r = i \<and> 0 \<le> off \<and> off < row_count r}"
    then obtain r off where r: "r \<in> set rows" and off: "0 \<le> off" "off < row_count r"
      and v: "v = Inr (Some (Typhoon r, off))" by auto
    let ?x = "The_starting_idx r + off"
    from chain_lower [OF ch pos r] off have lo: "0 \<le> ?x" by simp
    from off have le: "The_starting_idx r \<le> ?x" "?x \<le> The_ending_idx r"
      by (simp_all add: row_count_def)
    from chain_upper [OF ch pos r] le T have hi: "?x < T" by simp
    from scan_of_row [OF ch pos r le] have "scan rows ?x = Some (r, off)" by simp
    with rows tot' hi have "resolve ds ?x = Inr (Some (Typhoon r, off))"
      by (simp add: resolve_def)
    with v lo hi show "v \<in> resolve ds ` {0..<T}"
      by (metis atLeastLessThan_iff image_eqI)
  qed
qed

section \<open>The scenario evaluated\<close>

lemma scenario_init:
  "TyDataset_init arange (Some scenario_args) True (Some 2) None = Inr scenario_ds"
  by (simp add: TyDataset_init_def scenario_args_def scenario_table_def arange_def
      events_num_def slice_to_def index_take_def ty_loc_def Let_def frame_span_eq
      adjusted_cancel_def minutes_def scenario_ds_def scenario_rows_def upt_rec)

lemma scenario_counts:
  "event_count scenario_ds ''A'' = 9" "event_count scenario_ds ''B'' = 3"
  by (simp_all add: event_count_def scenario_ds_def extend_fields scenario_args_def
      scenario_table_def ty_loc_def valid_window_count_def frame_span_eq adjusted_cancel_def
      minutes_def)

lemma scenario_total: "total_samples scenario_ds = 12"
  by (simp add: total_samples_def scenario_counts)
     (simp add: scenario_ds_def extend_own_fields scenario_counts [unfolded scenario_ds_def])

section \<open>The table a construction builds\<close>

lemma init_table:
  assumes init: "TyDataset_init choice (Some a) train train_num tr = Inr ds"
    and perm: "distinct (choice (length (ty_list a)))"
  shows "map Typhoon (idx_df ds) = events_list ds"
    and "chain 0 (idx_df ds)"
    and "\<forall>r\<in>set (idx_df ds). row_count r = event_count ds (Typhoon r)"
    and "events_list ds \<noteq> [] \<Longrightarrow> total_frames ds = Some (total_samples ds)"
    and "sum_list (map row_count (idx_df ds)) = total_samples ds"
    and "distinct (events_list ds)"
proof -
  from init obtain ps evs tot rows where
    ps: "events_num (choice (length (ty_list a))) (length (ty_list a)) train train_num = Inr ps"
    and evs: "index_take (ty_list a) ps = Inr evs"
    and build: "build_idx (ty_list a) (input_frames a) (target_frames a) evs 0 None = Inr (tot, rows)"
    and ds: "ds = args.extend a \<lparr> transform = tr, events_list = evs, idx_df = rows,
                            total_frames = tot, sample = None \<rparr>"
    by (rule init_Inr)
  have f: "events_list ds = evs" "idx_df ds = rows" "total_frames ds = tot"
    "ty_list ds = ty_list a" "input_frames ds = input_frames a"
    "target_frames ds = target_frames a"
    unfolding ds by (simp_all add: extend_fields extend_own_fields)
  from build have names: "map Typhoon rows = evs" by (rule build_idx_names)
  then show "map Typhoon (idx_df ds) = events_list ds" by (simp add: f)
  from build show "chain 0 (idx_df ds)" unfolding f by (rule build_idx_chain)
  have cnt: "row_count r = event_count ds (Typhoon r)" if "r \<in> set rows" for r
  proof -
    from build_idx_rows [OF build that] obtain ev where
      "ty_loc (ty_list a) (Typhoon r) = Inr ev"
      "row_count r = valid_window_count (input_frames a) (target_frames a) ev" by blast
    then show ?thesis by (simp add: event_count_def f)
  qed
  then show "\<forall>r\<in>set (idx_df ds). row_count r = event_count ds (Typhoon r)" by (simp add: f)
  have "map row_count rows = map (event_count ds) (map Typhoon rows)"
    using cnt by simp
  then have sum: "sum_list (map row_count rows) = total_samples ds"
    by (simp only: total_samples_def f names)
  then show "sum_list (map row_count (idx_df ds)) = total_samples ds" by (simp add: f)
  from build_idx_total [OF build] sum
  show "events_list ds \<noteq> [] \<Longrightarrow> total_frames ds = Some (total_samples ds)"
    by (simp add: f)
  from index_take_Inr [OF evs] have evs_eq: "evs = map (\<lambda>p. En_name (ty_list a ! p)) ps"
    and lt: "\<forall>p\<in>set ps. p < length (ty_list a)" by simp_all
  from events_num_distinct [OF ps perm] have dps: "distinct ps" .
  have "\<forall>p\<in>set ps. \<exists>r. ty_loc (ty_list a) (En_name (ty_list a ! p)) = Inr r"
  proof
    fix p assume "p \<in> set ps"
    then have "En_name (ty_list a ! p) \<in> set (map Typhoon rows)"
      unfolding names evs_eq by simp
    then obtain r where "r \<in> set rows" "Typhoon r = En_name (ty_list a ! p)" by auto
    with build_idx_rows [OF build this(1)]
    show "\<exists>r. ty_loc (ty_list a) (En_name (ty_list a ! p)) = Inr r" by auto
  qed
  from selected_names_distinct [OF dps lt this] show "distinct (events_list ds)"
    by (simp add: f evs_eq)
qed

section \<open>Short events and the success of a construction\<close>

lemma late_init:
  "map_sum id (\<lambda>ds. (idx_df ds, total_frames ds))
     (TyDataset_init arange (Some late_args) True (Some 1) None) =
   Inr ([\<lparr> Typhoon = ''C'', The_starting_time = 1577836800, The_ending_time = 1577836500,
           The_starting_idx = 0, The_ending_idx = 0 \<rparr>], Some 1)"
  by (simp add: TyDataset_init_def late_args_def scenario_args_def arange_def
      events_num_def slice_to_def index_take_def ty_loc_def Let_def frame_span_eq
      adjusted_cancel_def minutes_def upt_rec extend_own_fields)


lemma scenario_resolve:
  "resolve scenario_ds 9 = Inr (Some (''B'', 0))"
  "resolve scenario_ds 11 = Inr (Some (''B'', 2))"
  "resolve scenario_ds 12 = Inl (AssertionError ''Index is out of the range of the data!'')"
  "resolve scenario_ds (- 1) = Inr (Some (''A'', - 1))"
  by (simp_all add: resolve_def scenario_ds_def extend_own_fields scenario_rows_def)

lemma valid_window_count_floor:
  assumes "Time_of_issuing r \<le> adjusted_cancel nin ntg r \<or>
           600 dvd (Time_of_issuing r - adjusted_cancel nin ntg r)"
  shows "valid_window_count nin ntg r =
         (Time_of_canceling r - (nin + ntg - 1) * 600 - Time_of_issuing r) div 600 + 1"
proof -
  let ?s = "Time_of_issuing r" and ?e = "adjusted_cancel nin ntg r"
  have e: "?e = Time_of_canceling r - (nin + ntg - 1) * 600"
    by (simp add: adjusted_cancel_def minutes_def algebra_simps)
  have "frame_span ?s ?e = (?e - ?s) div 600"
  proof (cases "?s \<le> ?e")
    case True
    then show ?thesis by (simp add: frame_span_eq)
  next
    case False
    with assms obtain k where k: "?s - ?e = 600 * k" by (auto simp: dvd_def)
    then have "?e - ?s = 600 * (- k)" by simp
    then have "(?e - ?s) div 600 = - k" by simp
    with False k show ?thesis by (simp add: frame_span_eq)
  qed
  then show ?thesis by (simp add: valid_window_count_def e)
qed


lemma init_rows:
  assumes init: "TyDataset_init choice (Some a) train train_num tr = Inr ds"
    and r: "r \<in> set (idx_df ds)"
  shows "\<exists>ev. ty_loc (ty_list a) (Typhoon r) = Inr ev \<and>
          The_starting_time r = Time_of_issuing ev \<and>
          The_ending_time r = adjusted_cancel (input_frames a) (target_frames a) ev \<and>
          row_count r = valid_window_count (input_frames a) (target_frames a) ev"
proof -
  from init obtain ps evs tot rows where
    build: "build_idx (ty_list a) (input_frames a) (target_frames a) evs 0 None = Inr (tot, rows)"
    and ds: "ds = args.extend a \<lparr> transform = tr, events_list = evs, idx_df = rows,
                            total_frames = tot, sample = None \<rparr>"
    by (rule init_Inr)
  from r have "r \<in> set rows" by (simp add: ds extend_own_fields)
  with build show ?thesis by (rule build_idx_rows)
qed

lemma init_projection:
  assumes "map_sum id f (TyDataset_init choice args_opt train train_num tr) = Inr v"
  obtains ds where "TyDataset_init choice args_opt train train_num tr = Inr ds" "f ds = v"
  using assms by (cases "TyDataset_init choice args_opt train train_num tr") auto



section \<open>The selection of events\<close>

lemma events_num_append:
  assumes "events_num rt n True k = Inr ps" and "events_num rt n False k = Inr qs"
  shows "ps @ qs = rt"
  using assms
  by (auto simp: events_num_def slice_to_def slice_from_def split: option.splits if_splits)

lemma events_num_default_length:
  assumes "events_num rt n True None = Inr ps" and "length rt = n"
  shows "length ps = 3 * n div 4"
proof -
  from assms(1) have "slice_to rt (py_int (of_nat n / 4 * 3)) = ps"
    by (simp only: events_num_def if_True option.case sum.inject)
  then have "ps = take (3 * n div 4) rt"
    by (simp only: default_split slice_to_def) simp
  with assms(2) show ?thesis by simp
qed

lemma init_selection:
  assumes init: "TyDataset_init choice (Some a) train train_num tr = Inr ds"
  obtains ps where
    "events_num (choice (length (ty_list a))) (length (ty_list a)) train train_num = Inr ps"
    "events_list ds = map (\<lambda>p. En_name (ty_list a ! p)) ps"
    "\<forall>p\<in>set ps. p < length (ty_list a)"
    "\<forall>p\<in>set ps. \<exists>r. ty_loc (ty_list a) (En_name (ty_list a ! p)) = Inr r"
proof -
  from init obtain ps evs tot rows where
    ps: "events_num (choice (length (ty_list a))) (length (ty_list a)) train train_num = Inr ps"
    and evs: "index_take (ty_list a) ps = Inr evs"
    and build: "build_idx (ty_list a) (input_frames a) (target_frames a) evs 0 None = Inr (tot, rows)"
    and ds: "ds = args.extend a \<lparr> transform = tr, events_list = evs, idx_df = rows,
                            total_frames = tot, sample = None \<rparr>"
    by (rule init_Inr)
  from index_take_Inr [OF evs] have evs_eq: "evs = map (\<lambda>p. En_name (ty_list a ! p)) ps"
    and lt: "\<forall>p\<in>set ps. p < length (ty_list a)" by simp_all
  from build have names: "map Typhoon rows = evs" by (rule build_idx_names)
  have ok: "\<forall>p\<in>set ps. \<exists>r. ty_loc (ty_list a) (En_name (ty_list a ! p)) = Inr r"
  proof
    fix p assume "p \<in> set ps"
    then have "En_name (ty_list a ! p) \<in> set (map Typhoon rows)"
      unfolding names evs_eq by simp
    then obtain r where "r \<in> set rows" "Typhoon r = En_name (ty_list a ! p)" by auto
    with build_idx_rows [OF build this(1)]
    show "\<exists>r. ty_loc (ty_list a) (En_name (ty_list a ! p)) = Inr r" by auto
  qed
  have "events_list ds = map (\<lambda>p. En_name (ty_list a ! p)) ps"
    by (simp add: ds extend_own_fields evs_eq)
  from ps this lt ok show ?thesis by (rule that)
qed

lemma floor_three_halves: "\<lfloor>3 / 2 :: rat\<rfloor> = 1"
  by (rule floor_unique) simp_all

lemma split_train:
  "map_sum id events_list (TyDataset_init arange (Some scenario_args) True None None) = Inr [''A'']"
  by (simp add: TyDataset_init_def scenario_args_def scenario_table_def arange_def
      events_num_def slice_to_def index_take_def ty_loc_def Let_def frame_span_eq
      adjusted_cancel_def minutes_def upt_rec extend_own_fields py_int_def floor_three_halves)

lemma split_test:
  "map_sum id events_list (TyDataset_init arange (Some scenario_args) False None None) = Inr [''B'']"
  by (simp add: TyDataset_init_def scenario_args_def scenario_table_def arange_def
      events_num_def slice_from_def index_take_def ty_loc_def Let_def frame_span_eq
      adjusted_cancel_def minutes_def upt_rec extend_own_fields py_int_def floor_three_halves)

section \<open>Samples of the scenario\<close>

lemma scenario_fields:
  "total_frames scenario_ds = Some 12" "idx_df scenario_ds = scenario_rows"
  "transform scenario_ds = None"
  "input_frames scenario_ds = 3" "target_frames scenario_ds = 2"
  "input_channels scenario_ds = 1" "input_with_grid scenario_ds = False"
  "I_shape scenario_ds = (2, 2)" "F_shape scenario_ds = (2, 2)" "O_shape scenario_ds = (2, 2)"
  "target_RAD scenario_ds = True" "catcher_location scenario_ds = False"
  by (simp_all add: scenario_ds_def scenario_args_def args.defs)

lemma broadcast2_same:
  "broadcast2 2 2 [[a, b], [c, d]] = Inr [[a, b], [c, d]]"
  by (simp add: broadcast2_def stretch_def Let_def upt_rec numeral_2_eq_2)

lemma env0_fields:
  "strftime env0 t = ''202001010020''" "year_str env0 t = ''2020''"
  "read_pickle env0 p c k = Inr [[Fin 1, Fin 2], [Fin 3, Fin 4]]"
  "read_ty_infos env0 p t1 t2 = Inr [[Fin 1, Fin 2, Fin 3], [Fin 4, Fin 5, Fin 6]]"
  by (simp_all add: env0_def)

lemma scenario_input_frame:
  "assemble_input_frame env0 scenario_ds r t j = Inr [[[Fin 1, Fin 2], [Fin 3, Fin 4]]]"
  by (simp add: assemble_input_frame_def Let_def scenario_fields env0_fields and_then_def
      assign_channel_def np_zeros_def broadcast2_same)

lemma scenario_radar_map:
  "assemble_radar_map env0 scenario_ds r t = Inr [[[Fin 1, Fin 2], [Fin 3, Fin 4]]]"
  by (simp add: assemble_radar_map_def Let_def scenario_fields env0_fields and_then_def
      assign_channel_def np_zeros_def broadcast2_same)

lemma scenario_target_frame:
  "assemble_target_frame env0 scenario_ds r t j = Inr [[Fin 1, Fin 2], [Fin 3, Fin 4]]"
  by (simp add: assemble_target_frame_def Let_def scenario_fields env0_fields and_then_def
      broadcast2_same)

lemma scenario_ty_infos:
  "assemble_ty_infos env0 scenario_ds r t = Inr [[Fin 1, Fin 2], [Fin 4, Fin 5]]"
  by (simp add: assemble_ty_infos_def Let_def scenario_fields env0_fields and_then_def
      select_columns_def)

lemma scenario_height:
  "assemble_height env0 scenario_ds = Inr [[Fin 0, Fin (1 / 3)], [Fin (2 / 3), Fin 1]]"
  by (simp add: assemble_height_def env0_fields and_then_def np_min_def np_max_def fsub_def)

lemma scenario_assemble:
  "assemble env0 scenario_ds r t = Inr scenario_sample"
  by (simp add: assemble_def scenario_fields frame_indices_def and_then_def upt_rec
      scenario_input_frame scenario_radar_map scenario_target_frame scenario_ty_infos
      scenario_height env0_fields scenario_sample_def numeral_3_eq_3 numeral_2_eq_2)

lemma scenario_getitem:
  "TyDataset_getitem env0 scenario_ds 0 =
     (Inr (Some scenario_sample), scenario_ds \<lparr> sample := Some scenario_sample \<rparr>)"
  "TyDataset_getitem env0 scenario_ds (- 1) =
     (Inr (Some scenario_sample), scenario_ds \<lparr> sample := Some scenario_sample \<rparr>)"
  by (simp_all add: TyDataset_getitem_def scenario_fields scenario_rows_def scenario_assemble)

lemma grid_init:
  "TyDataset_init arange (Some grid_args) True (Some 2) None = Inr grid_ds"
  by (simp add: TyDataset_init_def grid_args_def scenario_args_def scenario_table_def arange_def
      events_num_def slice_to_def index_take_def ty_loc_def Let_def frame_span_eq
      adjusted_cancel_def minutes_def grid_ds_def scenario_rows_def upt_rec)

lemma grid_fields:
  "total_frames grid_ds = Some 12" "idx_df grid_ds = scenario_rows"
  "transform grid_ds = None"
  "input_frames grid_ds = 3" "target_frames grid_ds = 2"
  "input_channels grid_ds = 3" "input_with_grid grid_ds = True"
  "I_shape grid_ds = (2, 2)" "F_shape grid_ds = (2, 2)" "O_shape grid_ds = (2, 2)"
  "target_RAD grid_ds = True" "catcher_location grid_ds = False"
  by (simp_all add: grid_ds_def grid_args_def scenario_args_def args.defs)

lemma grids_2_2:
  "gird_x 2 2 = [[Fin 0, Fin 1], [Fin 0, Fin 1]]"
  "gird_y 2 2 = [[Fin 0, Fin 0], [Fin 1, Fin 1]]"
  by (simp_all add: gird_x_def gird_y_def upt_rec numeral_2_eq_2)

lemma grid_input_frame:
  "assemble_input_frame env0 grid_ds r t j =
     Inr [[[Fin 1, Fin 2], [Fin 3, Fin 4]], [[Fin 0, Fin 1], [Fin 0, Fin 1]],
          [[Fin 0, Fin 0], [Fin 1, Fin 1]]]"
  by (simp add: assemble_input_frame_def Let_def grid_fields env0_fields and_then_def
      assign_channel_def np_zeros_def broadcast2_same grids_2_2 numeral_3_eq_3)

lemma np_zeros_3_2_2:
  "np_zeros 3 2 2 = [[[Fin 0, Fin 0], [Fin 0, Fin 0]], [[Fin 0, Fin 0], [Fin 0, Fin 0]],
     [[Fin 0, Fin 0], [Fin 0, Fin 0]]]"
  by (simp add: np_zeros_def numeral_2_eq_2 numeral_3_eq_3)

lemma grid_radar_map:
  "assemble_radar_map env0 grid_ds r t =
     Inr [[[Fin 0, Fin 1], [Fin 0, Fin 1]], [[Fin 0, Fin 0], [Fin 1, Fin 1]],
          [[Fin 0, Fin 0], [Fin 0, Fin 0]]]"
  by (simp add: assemble_radar_map_def Let_def grid_fields env0_fields and_then_def
      assign_channel_def np_zeros_3_2_2 broadcast2_same grids_2_2)

lemma grid_target_frame:
  "assemble_target_frame env0 grid_ds r t j = Inr [[Fin 1, Fin 2], [Fin 3, Fin 4]]"
  by (simp add: assemble_target_frame_def Let_def grid_fields env0_fields and_then_def
      broadcast2_same)

lemma grid_ty_infos:
  "assemble_ty_infos env0 grid_ds r t = Inr [[Fin 1, Fin 2], [Fin 4, Fin 5]]"
  by (simp add: assemble_ty_infos_def Let_def grid_fields env0_fields and_then_def
      select_columns_def)

lemma grid_height:
  "assemble_height env0 grid_ds = Inr [[Fin 0, Fin (1 / 3)], [Fin (2 / 3), Fin 1]]"
  by (simp add: assemble_height_def env0_fields and_then_def np_min_def np_max_def fsub_def)

lemma grid_getitem:
  "map_sum id (map_option (\<lambda>s. (inputs s ! 2, radar_map s))) (fst (TyDataset_getitem env0 grid_ds 0)) =
     Inr (Some
       ([[[Fin 1, Fin 2], [Fin 3, Fin 4]], [[Fin 0, Fin 1], [Fin 0, Fin 1]],
          [[Fin 0, Fin 0], [Fin 1, Fin 1]]],
        [[[Fin 0, Fin 1], [Fin 0, Fin 1]], [[Fin 0, Fin 0], [Fin 1, Fin 1]],
          [[Fin 0, Fin 0], [Fin 0, Fin 0]]]))"
  by (simp add: TyDataset_getitem_def grid_fields scenario_rows_def assemble_def
      frame_indices_def and_then_def upt_rec grid_input_frame grid_radar_map grid_target_frame
      grid_ty_infos grid_height env0_fields numeral_3_eq_3 numeral_2_eq_2)

lemma stretch_same:
  assumes "length g = h" and "\<forall>r\<in>set g. length r = w"
  shows "stretch h w h w g = g"
  unfolding stretch_def
proof (rule nth_equalityI)
  show "length (map (\<lambda>i. map (\<lambda>j. g ! (if h = 1 then 0 else i) ! (if w = 1 then 0 else j)) [0..<w])
          [0..<h]) = length g" by (simp add: assms(1))
next
  fix i
  assume "i < length (map (\<lambda>i. map (\<lambda>j. g ! (if h = 1 then 0 else i) ! (if w = 1 then 0 else j))
          [0..<w]) [0..<h])"
  then have i: "i < h" by simp
  then have idx: "h = 1 \<longrightarrow> i = 0" by auto
  from i assms have len: "length (g ! i) = w" by simp
  have "map (\<lambda>j. g ! i ! (if w = 1 then 0 else j)) [0..<w] = g ! i"
  proof (rule nth_equalityI)
    show "length (map (\<lambda>j. g ! i ! (if w = 1 then 0 else j)) [0..<w]) = length (g ! i)"
      by (simp add: len)
  next
    fix j
    assume "j < length (map (\<lambda>j. g ! i ! (if w = 1 then 0 else j)) [0..<w])"
    then have "j < w" by simp
    then show "map (\<lambda>j. g ! i ! (if w = 1 then 0 else j)) [0..<w] ! j = g ! i ! j" by auto
  qed
  with i idx
  show "map (\<lambda>i. map (\<lambda>j. g ! (if h = 1 then 0 else i) ! (if w = 1 then 0 else j)) [0..<w])
          [0..<h] ! i = g ! i" by auto
qed

lemma broadcast2_rect:
  assumes "length g = h" and "\<forall>r\<in>set g. length r = w"
  shows "broadcast2 h w g = Inr g"
proof (cases g)
  case Nil
  with assms(1) show ?thesis by (simp add: broadcast2_def)
next
  case (Cons r rs)
  with assms(2) have r: "length r = w" by simp
  from assms(2) have all: "list_all (\<lambda>x. length x = w) g" by (simp add: list_all_iff)
  have "broadcast2 h w g = Inr (stretch (length g) (length r) h w g)"
    using all assms(1) r by (simp add: broadcast2_def Cons Let_def)
  also have "stretch (length g) (length r) h w g = g"
    unfolding assms(1) r using assms by (rule stretch_same)
  finally show ?thesis .
qed

lemma broadcast2_gird_x: "broadcast2 h w (gird_x w h) = Inr (gird_x w h)"
  by (rule broadcast2_rect) (simp_all add: gird_x_def)

lemma broadcast2_gird_y: "broadcast2 h w (gird_y w h) = Inr (gird_y w h)"
  by (rule broadcast2_rect) (auto simp: gird_y_def)

lemma radar_map_grid_overwrites:
  assumes "assemble_radar_map env ds r t = Inr m" and "input_with_grid ds"
  shows "m ! 0 = gird_x (fst (O_shape ds)) (snd (O_shape ds))"
  using assms
  by (auto simp: assemble_radar_map_def Let_def and_then_def assign_channel_def
      broadcast2_gird_x split: sum.splits if_splits)

lemma getitem_writes_sample:
  assumes "TyDataset_getitem env ds idx = (Inr (Some s), ds')"
  shows "ds' = ds \<lparr> sample := Some s \<rparr>"
  using assms
  by (auto simp: TyDataset_getitem_def split: option.splits if_splits prod.splits sum.splits)

lemma getitem_upper_bound:
  assumes "total_frames ds = Some t" and "t \<le> idx"
  shows "TyDataset_getitem env ds idx =
           (Inl (AssertionError ''Index is out of the range of the data!''), ds)"
  using assms by (simp add: TyDataset_getitem_def)

section \<open>Normalisation evaluated\<close>

lemma Normalize_call_raises: "fst (Normalize_call self smp) \<noteq> Inr s"
  by (simp add: Normalize_call_def split: prod.splits option.splits sum.splits)

lemma type_check_truthy: "truthy (type_check x)"
  by (simp add: type_check_def py_or_def)

lemma Normalize_init_succeeds: "Normalize_init a = Inr a"
  by (simp add: Normalize_init_def type_check_truthy)

lemma stats_fields:
  "getitem scenario_stats_min ''RAD'' = Inr (Fin 0)"
  "getitem scenario_stats_max ''RAD'' = Inr (Fin 100)"
  "loc_from scenario_stats_min ''Lat'' = Inr [Fin 0, Fin 0]"
  "loc_from scenario_stats_max ''Lat'' = Inr [Fin 90, Fin 180]"
  by (simp_all add: scenario_stats_min_def scenario_stats_max_def Series_def)

lemma scenario_self:
  "min_values scenario_args = scenario_stats_min" "max_values scenario_args = scenario_stats_max"
  "input_with_grid scenario_args = False" "normalize_target scenario_args = True"
  "target_RAD scenario_args = True"
  by (simp_all add: scenario_args_def)

lemma degenerate_self:
  "min_values degenerate_args = scenario_stats_min" "max_values degenerate_args = scenario_stats_min"
  "input_with_grid degenerate_args = False" "normalize_target degenerate_args = True"
  "target_RAD degenerate_args = True"
  by (simp_all add: degenerate_args_def scenario_args_def)

lemma scenario_normalize:
  "Normalize_call scenario_args scenario_sample =
     (Inl (NameError ''height''),
      scenario_sample
        \<lparr> inputs := replicate 3 [[[Fin (1 / 100), Fin (1 / 50)], [Fin (3 / 100), Fin (1 / 25)]]],
          radar_map := [[[Fin (1 / 100), Fin (1 / 50)], [Fin (3 / 100), Fin (1 / 25)]]] \<rparr>)"
  by (simp add: Normalize_call_def scenario_self normalize_inputs_def normalize_radar_map_def
      normalize_targets_def normalize_ty_infos_def bounds_def stats_fields and_then_def
      update_frames_def update_channel_def map_grid_def minmax_def fsub_def broadcast_vec_def
      scenario_sample_def numeral_3_eq_3 numeral_2_eq_2 upt_rec)

lemma degenerate_normalize:
  "Normalize_call degenerate_args scenario_sample =
     (Inl (NameError ''height''),
      scenario_sample
        \<lparr> inputs := replicate 3 [[[PInf, PInf], [PInf, PInf]]],
          radar_map := [[[PInf, PInf], [PInf, PInf]]] \<rparr>)"
  by (simp add: Normalize_call_def degenerate_self normalize_inputs_def normalize_radar_map_def
      normalize_targets_def normalize_ty_infos_def bounds_def stats_fields and_then_def
      update_frames_def update_channel_def map_grid_def minmax_def fsub_def broadcast_vec_def
      scenario_sample_def numeral_3_eq_3 numeral_2_eq_2 upt_rec)

lemma fdiv_zero_not_finite: "\<not> is_finite (fdiv y (Fin 0))"
  by (cases y) auto

lemma run_stmts_keeps:
  assumes "\<forall>f\<in>set fs. \<forall>s s'. f s = Inr s' \<longrightarrow> primary s' = primary s"
  shows "primary (snd (run_stmts fs s)) = primary s"
  using assms
proof (induction fs arbitrary: s)
  case Nil
  then show ?case by simp
next
  case (Cons f fs)
  show ?case
  proof (cases "f s")
    case (Inl e)
    then show ?thesis by simp
  next
    case (Inr s')
    with Cons.prems have "primary s' = primary s" by simp
    moreover from Cons.prems have "primary (snd (run_stmts fs s')) = primary s'"
      by (intro Cons.IH) simp
    ultimately show ?thesis using Inr by simp
  qed
qed

lemma update_frames_keeps:
  assumes "update_frames c f a = Inr b" and "c \<noteq> 0"
  shows "map (\<lambda>fr. fr ! 0) b = map (\<lambda>fr. fr ! 0) a"
  using assms by (auto simp: update_frames_def split: if_splits)

lemma inputs_xy_keep:
  "normalize_inputs_x self s = Inr s' \<Longrightarrow> primary s' = primary s"
  "normalize_inputs_y self s = Inr s' \<Longrightarrow> primary s' = primary s"
  by (auto simp: normalize_inputs_x_def normalize_inputs_y_def and_then_def primary_def
      split: sum.splits dest!: update_frames_keeps)

lemma radar_keeps:
  "normalize_radar_map self s = Inr s' \<Longrightarrow> primary s' = primary s"
  "normalize_radar_map_x self s = Inr s' \<Longrightarrow> primary s' = primary s"
  "normalize_radar_map_y self s = Inr s' \<Longrightarrow> primary s' = primary s"
  by (auto simp: normalize_radar_map_def normalize_radar_map_x_def normalize_radar_map_y_def
      and_then_def primary_def split: sum.splits if_splits prod.splits)

lemma Normalize_call_primary:
  "primary (snd (Normalize_call self smp)) =
   primary (snd (run_stmts
             (normalize_inputs self #
              (if input_with_grid self
               then [normalize_inputs_x self, normalize_inputs_y self] else []))
             smp))"
proof -
  define A where "A = normalize_inputs self #
              (if input_with_grid self
               then [normalize_inputs_x self, normalize_inputs_y self] else [])"
  define B where "B = normalize_radar_map self #
              (if input_with_grid self
               then [normalize_radar_map_x self, normalize_radar_map_y self] else [])"
  have call: "Normalize_call self smp =
     (case run_stmts A smp of
        (Some e, s1) \<Rightarrow> (Inl e, s1)
      | (None, s1) \<Rightarrow>
          (case normalize_targets self (targets s1) of
             Inl e \<Rightarrow> (Inl e, s1)
           | Inr target_data \<Rightarrow>
               (case run_stmts B s1 of
                  (Some e, s2) \<Rightarrow> (Inl e, s2)
                | (None, s2) \<Rightarrow>
                    (case normalize_ty_infos self (ty_infos s2) of
                       Inl e \<Rightarrow> (Inl e, s2)
                     | Inr infos \<Rightarrow> (Inl (NameError ''height''), s2)))))"
    unfolding Normalize_call_def A_def B_def by (rule refl)
  obtain e1 s1 where r1: "run_stmts A smp = (e1, s1)" by (cases "run_stmts A smp")
  have "primary (snd (run_stmts B s1)) = primary s1"
    unfolding B_def by (rule run_stmts_keeps) (auto dest: radar_keeps)
  moreover obtain e2 s2 where r2: "run_stmts B s1 = (e2, s2)" by (cases "run_stmts B s1")
  ultimately have s2: "primary s2 = primary s1" by simp
  have "snd (Normalize_call self smp) = s1 \<or> snd (Normalize_call self smp) = s2"
    unfolding call r1
    by (cases e1; cases "normalize_targets self (targets s1)"; cases e2;
        cases "normalize_ty_infos self (ty_infos s2)") (simp_all add: r2)
  with s2 have "primary (snd (Normalize_call self smp)) = primary s1" by auto
  with r1 show ?thesis unfolding A_def by simp
qed

lemma normalize_inputs_degenerate:
  assumes mn: "getitem (min_values self) ''RAD'' = Inr (Fin m)"
    and mx: "getitem (max_values self) ''RAD'' = Inr (Fin m)"
    and ch: "list_all (\<lambda>fr. 0 < length fr) (inputs smp)"
  shows "\<exists>s1. normalize_inputs self smp = Inr s1 \<and>
     primary s1 = map (\<lambda>fr. map_grid (\<lambda>x. fdiv (fsub x (Fin m)) (Fin 0)) (fr ! 0)) (inputs smp)"
proof -
  have mm: "minmax (Fin m) (Fin m) = (\<lambda>x. fdiv (fsub x (Fin m)) (Fin 0))"
    by (rule ext) (simp add: minmax_def fsub_def)
  from ch have "map (\<lambda>fr. fr ! 0) (map (\<lambda>fr. fr[0 := map_grid (minmax (Fin m) (Fin m)) (fr ! 0)])
      (inputs smp)) = map (\<lambda>fr. map_grid (minmax (Fin m) (Fin m)) (fr ! 0)) (inputs smp)"
    by (simp add: list_all_iff)
  with mn mx ch show ?thesis
    by (simp add: normalize_inputs_def bounds_def and_then_def update_frames_def primary_def mm)
qed

section \<open>The claims\<close>

text \<open>
  Claim C1. For a dataset built from a selection whose events all have a positive number of
  valid windows, the rows of the index table follow the selection, each row starts one past
  the end of the row before it (the first at 0) and spans as many indices as its event has
  valid windows, rows do not overlap, the union of their ranges is \<open>[0, total_samples)\<close>,
  \<^verbatim>\<open>__len__\<close> returns \<open>total_samples\<close>, and the scan of \<^verbatim>\<open>__getitem__\<close> maps
  \<open>[0, total_samples)\<close> one-to-one onto the pairs of an event and a valid local offset.
\<close>

theorem index_table_bijection:
  assumes init: "TyDataset_init choice (Some a) train train_num tr = Inr ds"
    and perm: "distinct (choice (length (ty_list a)))"
    and pos: "\<forall>i\<in>set (events_list ds). 0 < event_count ds i"
  shows "map Typhoon (idx_df ds) = events_list ds \<and>
    (\<forall>k<length (idx_df ds).
        The_starting_idx (idx_df ds ! k) =
          (if k = 0 then 0 else The_ending_idx (idx_df ds ! (k - 1)) + 1) \<and>
        The_ending_idx (idx_df ds ! k) =
          The_starting_idx (idx_df ds ! k) + event_count ds (events_list ds ! k) - 1) \<and>
    (\<forall>j k. j < k \<and> k < length (idx_df ds) \<longrightarrow>
        The_ending_idx (idx_df ds ! j) < The_starting_idx (idx_df ds ! k)) \<and>
    (\<Union>r\<in>set (idx_df ds). {The_starting_idx r..The_ending_idx r}) = {0..<total_samples ds} \<and>
    (events_list ds \<noteq> [] \<longrightarrow> len ds = Inr (total_samples ds)) \<and>
    bij_betw (resolve ds) {0..<total_samples ds}
      ((\<lambda>p. Inr (Some p)) `
        {(i, off). i \<in> set (events_list ds) \<and> 0 \<le> off \<and> off < event_count ds i})"
proof -
  note t = init_table [OF init perm]
  let ?rows = "idx_df ds"
  have rpos: "\<forall>r\<in>set ?rows. 0 < row_count r"
  proof
    fix r assume r: "r \<in> set ?rows"
    then have "Typhoon r \<in> set (map Typhoon ?rows)" by simp
    with t(1) pos have "0 < event_count ds (Typhoon r)" by simp
    with t(3) r show "0 < row_count r" by simp
  qed
  have c2: "\<forall>k<length ?rows.
        The_starting_idx (?rows ! k) =
          (if k = 0 then 0 else The_ending_idx (?rows ! (k - 1)) + 1) \<and>
        The_ending_idx (?rows ! k) =
          The_starting_idx (?rows ! k) + event_count ds (events_list ds ! k) - 1"
  proof (intro allI impI conjI)
    fix k assume k: "k < length ?rows"
    from chain_nth [OF t(2) k]
    show "The_starting_idx (?rows ! k) =
          (if k = 0 then 0 else The_ending_idx (?rows ! (k - 1)) + 1)" .
    from k have "?rows ! k \<in> set ?rows" by simp
    with t(3) have "row_count (?rows ! k) = event_count ds (Typhoon (?rows ! k))" by blast
    moreover from k have "Typhoon (?rows ! k) = map Typhoon ?rows ! k" by simp
    ultimately have "row_count (?rows ! k) = event_count ds (events_list ds ! k)"
      by (simp only: t(1))
    with row_end [of "?rows ! k"]
    show "The_ending_idx (?rows ! k) =
          The_starting_idx (?rows ! k) + event_count ds (events_list ds ! k) - 1" by simp
  qed
  have c3: "\<forall>j k. j < k \<and> k < length ?rows \<longrightarrow>
        The_ending_idx (?rows ! j) < The_starting_idx (?rows ! k)"
    using chain_ordered [OF t(2) rpos] by blast
  from chain_union [OF t(2) rpos]
  have c4: "(\<Union>r\<in>set ?rows. {The_starting_idx r..The_ending_idx r}) = {0..<total_samples ds}"
    by (simp add: t(5))
  have c5: "events_list ds \<noteq> [] \<longrightarrow> len ds = Inr (total_samples ds)"
    using t(4) by (simp add: len_def)
  have tot: "?rows \<noteq> [] \<longrightarrow> total_frames ds = Some (total_samples ds)"
  proof
    assume "?rows \<noteq> []"
    then have "events_list ds \<noteq> []" by (metis t(1) map_is_Nil_conv)
    then show "total_frames ds = Some (total_samples ds)" by (rule t(4))
  qed
  from t(6) have dist: "distinct (map Typhoon ?rows)" by (simp only: t(1))
  have set_eq: "{(i, off). \<exists>r\<in>set ?rows. Typhoon r = i \<and> 0 \<le> off \<and> off < row_count r}
      = {(i, off). i \<in> set (events_list ds) \<and> 0 \<le> off \<and> off < event_count ds i}"
  proof -
    have "set (events_list ds) = Typhoon ` set ?rows"
      by (simp only: t(1) [symmetric] set_map)
    with t(3) show ?thesis by auto
  qed
  from resolve_bij [OF refl tot t(2) rpos t(5) [symmetric] dist]
  have c6: "bij_betw (resolve ds) {0..<total_samples ds}
      ((\<lambda>p. Inr (Some p)) `
        {(i, off). i \<in> set (events_list ds) \<and> 0 \<le> off \<and> off < event_count ds i})"
    by (simp only: set_eq)
  from t(1) c2 c3 c4 c5 c6 show ?thesis by (intro conjI)
qed

theorem index_table_bijection_witness:
  "TyDataset_init arange (Some scenario_args) True (Some 2) None = Inr scenario_ds \<and>
   distinct (arange (length (ty_list scenario_args))) \<and>
   event_count scenario_ds ''A'' = 9 \<and> event_count scenario_ds ''B'' = 3 \<and>
   (\<Union>r\<in>set (idx_df scenario_ds). {The_starting_idx r..The_ending_idx r}) = {0..<12} \<and>
   len scenario_ds = Inr 12 \<and>
   bij_betw (resolve scenario_ds) {0..<12}
      ((\<lambda>p. Inr (Some p)) `
        {(i, off). i \<in> {''A'', ''B''} \<and> 0 \<le> off \<and> off < event_count scenario_ds i})"
proof -
  have ev: "events_list scenario_ds = [''A'', ''B'']"
    by (simp add: scenario_ds_def extend_own_fields)
  have perm: "distinct (arange (length (ty_list scenario_args)))"
    by (simp add: arange_def)
  have pos: "\<forall>i\<in>set (events_list scenario_ds). 0 < event_count scenario_ds i"
    by (simp add: ev scenario_counts)
  from index_table_bijection [OF scenario_init perm pos] perm scenario_init scenario_counts
  show ?thesis by (simp add: scenario_total ev)
qed

text \<open>
  Claim C2, amended. For an event whose adjusted cancel time is not earlier than its issue
  time, or earlier by a whole number of steps, the row the construction writes spans
  \<open>floor((c - (L - 1) * step - s) / step) + 1\<close> indices (times in seconds, the step 600). In the scenario the first event has 9 valid
  windows and the second 3, the length is 12, index 9 resolves to the second event at
  offset 0 and index 11 to the second event at offset 2.
\<close>

theorem window_count_when_window_fits:
  assumes init: "TyDataset_init choice (Some a) train train_num tr = Inr ds"
    and r: "r \<in> set (idx_df ds)"
    and ev: "ty_loc (ty_list a) (Typhoon r) = Inr ev"
    and fits: "Time_of_issuing ev \<le>
                 Time_of_canceling ev - (input_frames a + target_frames a - 1) * 600 \<or>
               600 dvd (Time_of_issuing ev -
                 (Time_of_canceling ev - (input_frames a + target_frames a - 1) * 600))"
  shows "The_ending_idx r - The_starting_idx r + 1 =
           (Time_of_canceling ev - (input_frames a + target_frames a - 1) * 600
              - Time_of_issuing ev) div 600 + 1 \<and>
         TyDataset_init arange (Some scenario_args) True (Some 2) None = Inr scenario_ds \<and>
         event_count scenario_ds ''A'' = 9 \<and> event_count scenario_ds ''B'' = 3 \<and>
         len scenario_ds = Inr 12 \<and>
         resolve scenario_ds 9 = Inr (Some (''B'', 0)) \<and>
         resolve scenario_ds 11 = Inr (Some (''B'', 2))"
proof -
  from init_rows [OF init r] ev
  have "row_count r = valid_window_count (input_frames a) (target_frames a) ev" by auto
  moreover have "adjusted_cancel (input_frames a) (target_frames a) ev =
      Time_of_canceling ev - (input_frames a + target_frames a - 1) * 600"
    by (simp add: adjusted_cancel_def minutes_def algebra_simps)
  with fits
  have "Time_of_issuing ev \<le> adjusted_cancel (input_frames a) (target_frames a) ev \<or>
      600 dvd (Time_of_issuing ev - adjusted_cancel (input_frames a) (target_frames a) ev)"
    by simp
  ultimately have "The_ending_idx r - The_starting_idx r + 1 =
           (Time_of_canceling ev - (input_frames a + target_frames a - 1) * 600
              - Time_of_issuing ev) div 600 + 1"
    by (simp add: valid_window_count_floor row_count_def)
  moreover have "len scenario_ds = Inr 12"
    by (simp add: len_def scenario_ds_def extend_own_fields)
  ultimately show ?thesis
    using scenario_init scenario_counts scenario_resolve(1,2) by simp
qed

theorem window_count_when_window_fits_witness:
  "TyDataset_init arange (Some scenario_args) True (Some 2) None = Inr scenario_ds \<and>
   hd scenario_rows \<in> set (idx_df scenario_ds) \<and>
   ty_loc (ty_list scenario_args) (Typhoon (hd scenario_rows)) = Inr (hd scenario_table) \<and>
   Time_of_issuing (hd scenario_table) \<le>
     Time_of_canceling (hd scenario_table)
       - (input_frames scenario_args + target_frames scenario_args - 1) * 600 \<and>
   The_ending_idx (hd scenario_rows) - The_starting_idx (hd scenario_rows) + 1 = 9 \<and>
   len scenario_ds = Inr 12 \<and>
   resolve scenario_ds 9 = Inr (Some (''B'', 0)) \<and>
   resolve scenario_ds 11 = Inr (Some (''B'', 2))"
proof -
  have r: "hd scenario_rows \<in> set (idx_df scenario_ds)"
    by (simp add: scenario_ds_def extend_own_fields scenario_rows_def)
  have ev: "ty_loc (ty_list scenario_args) (Typhoon (hd scenario_rows)) = Inr (hd scenario_table)"
    by (simp add: scenario_args_def scenario_rows_def scenario_table_def ty_loc_def)
  have fits: "Time_of_issuing (hd scenario_table) \<le>
     Time_of_canceling (hd scenario_table)
       - (input_frames scenario_args + target_frames scenario_args - 1) * 600"
    by (simp add: scenario_args_def scenario_table_def)
  from fits have "Time_of_issuing (hd scenario_table) \<le>
     Time_of_canceling (hd scenario_table)
       - (input_frames scenario_args + target_frames scenario_args - 1) * 600 \<or>
     600 dvd (Time_of_issuing (hd scenario_table) -
       (Time_of_canceling (hd scenario_table)
         - (input_frames scenario_args + target_frames scenario_args - 1) * 600))" ..
  from window_count_when_window_fits [OF scenario_init r ev this] r ev fits
  show ?thesis by (simp add: scenario_args_def scenario_table_def)
qed

text \<open>
  Claim C2 as stated fails: for an event cancelled five minutes before its window fits, the
  construction records one valid window where the floor formula gives none, because
  \<^verbatim>\<open>int\<close> truncates towards zero.
\<close>

theorem window_count_floor_counterexample:
  "map_sum id (\<lambda>ds. (idx_df ds, total_frames ds))
     (TyDataset_init arange (Some late_args) True (Some 1) None) =
   Inr ([\<lparr> Typhoon = ''C'', The_starting_time = 1577836800, The_ending_time = 1577836500,
           The_starting_idx = 0, The_ending_idx = 0 \<rparr>], Some 1) \<and>
   (1577838900 - (3 + 2 - 1) * 600 - 1577836800) div 600 + 1 = (0 :: int)"
  using late_init by simp




text \<open>
  Claim C5. For a population of any size, a generator that returns a permutation of the
  positions, and any count (or none, for the split at \<open>3 * N div 4\<close>), the training and the
  testing selection of two constructions that succeed are disjoint, their union is the whole
  population, and both are the labels at the positions \<open>events_num\<close> computes from the
  permutation, the size of the population and the count alone: the training positions
  followed by the testing positions are the permutation.
\<close>

theorem train_test_partition:
  assumes tr: "TyDataset_init choice (Some a) True train_num t1 = Inr dtr"
    and te: "TyDataset_init choice (Some a) False train_num t2 = Inr dte"
    and perm: "distinct (choice (length (ty_list a)))"
      "set (choice (length (ty_list a))) = {0..<length (ty_list a)}"
  shows "set (events_list dtr) \<inter> set (events_list dte) = {} \<and>
    set (events_list dtr) \<union> set (events_list dte) = set (map En_name (ty_list a)) \<and>
    distinct (events_list dtr @ events_list dte) \<and>
    (train_num = None \<longrightarrow> length (events_list dtr) = 3 * length (ty_list a) div 4) \<and>
    (\<exists>ps qs.
       events_num (choice (length (ty_list a))) (length (ty_list a)) True train_num = Inr ps \<and>
       events_num (choice (length (ty_list a))) (length (ty_list a)) False train_num = Inr qs \<and>
       ps @ qs = choice (length (ty_list a)) \<and>
       events_list dtr = map (\<lambda>p. En_name (ty_list a ! p)) ps \<and>
       events_list dte = map (\<lambda>p. En_name (ty_list a ! p)) qs)"
proof -
  let ?tab = "ty_list a" and ?n = "length (ty_list a)"
  let ?g = "\<lambda>p. En_name (ty_list a ! p)"
  from tr obtain ps where ps: "events_num (choice ?n) ?n True train_num = Inr ps"
    and etr: "events_list dtr = map ?g ps"
    and ps_ok: "\<forall>p\<in>set ps. \<exists>r. ty_loc ?tab (?g p) = Inr r"
    by (rule init_selection)
  from te obtain qs where qs: "events_num (choice ?n) ?n False train_num = Inr qs"
    and ete: "events_list dte = map ?g qs"
    and qs_ok: "\<forall>p\<in>set qs. \<exists>r. ty_loc ?tab (?g p) = Inr r"
    by (rule init_selection)
  from events_num_append [OF ps qs] have app: "ps @ qs = choice ?n" .
  then have set_app: "set ps \<union> set qs = {0..<?n}" using perm(2) by (metis set_append)
  from app perm(1) have d: "distinct (ps @ qs)" by simp
  have lt: "\<forall>p\<in>set (ps @ qs). p < ?n" using set_app by auto
  have ok: "\<forall>p\<in>set (ps @ qs). \<exists>r. ty_loc ?tab (?g p) = Inr r"
    using ps_ok qs_ok by auto
  from selected_names_distinct [OF d lt ok]
  have dist: "distinct (events_list dtr @ events_list dte)" by (simp add: etr ete)
  then have disj: "set (events_list dtr) \<inter> set (events_list dte) = {}" by simp
  have "set (events_list dtr) \<union> set (events_list dte) = ?g ` (set ps \<union> set qs)"
    by (simp add: etr ete image_Un)
  also have "\<dots> = ?g ` {0..<?n}" by (simp only: set_app)
  also have "\<dots> = set (map En_name ?tab)"
  proof -
    have "map ?g [0..<?n] = map En_name ?tab" by (rule nth_equalityI) simp_all
    then have "set (map ?g [0..<?n]) = set (map En_name ?tab)" by (rule arg_cong)
    then show ?thesis by simp
  qed
  finally have un: "set (events_list dtr) \<union> set (events_list dte) = set (map En_name ?tab)" .
  have len: "train_num = None \<longrightarrow> length (events_list dtr) = 3 * ?n div 4"
  proof
    assume n: "train_num = None"
    from perm have "card (set (choice ?n)) = ?n" by simp
    with perm(1) have "length (choice ?n) = ?n" by (simp add: distinct_card)
    from events_num_default_length [OF ps [unfolded n] this]
    show "length (events_list dtr) = 3 * ?n div 4" by (simp add: etr)
  qed
  from ps qs app etr ete have ex: "\<exists>ps qs.
       events_num (choice ?n) ?n True train_num = Inr ps \<and>
       events_num (choice ?n) ?n False train_num = Inr qs \<and>
       ps @ qs = choice ?n \<and>
       events_list dtr = map ?g ps \<and>
       events_list dte = map ?g qs" by (intro exI conjI)
  from disj un dist len ex show ?thesis by (intro conjI)
qed

theorem train_test_partition_witness:
  "map_sum id events_list (TyDataset_init arange (Some scenario_args) True None None) = Inr [''A''] \<and>
   map_sum id events_list (TyDataset_init arange (Some scenario_args) False None None) = Inr [''B''] \<and>
   distinct (arange (length (ty_list scenario_args))) \<and>
   set (arange (length (ty_list scenario_args))) = {0..<length (ty_list scenario_args)} \<and>
   set [''A''] \<inter> set [''B''] = ({} :: string set) \<and>
   set [''A''] \<union> set [''B''] = set (map En_name (ty_list scenario_args)) \<and>
   length [''A''] = 3 * length (ty_list scenario_args) div 4"
proof -
  from split_train obtain dtr where
    tr: "TyDataset_init arange (Some scenario_args) True None None = Inr dtr"
    and etr: "events_list dtr = [''A'']" by (rule init_projection)
  from split_test obtain dte where
    te: "TyDataset_init arange (Some scenario_args) False None None = Inr dte"
    and ete: "events_list dte = [''B'']" by (rule init_projection)
  have perm: "distinct (arange (length (ty_list scenario_args)))"
    "set (arange (length (ty_list scenario_args))) = {0..<length (ty_list scenario_args)}"
    by (simp_all add: arange_def)
  from train_test_partition [OF tr te perm]
  have "set (events_list dtr) \<inter> set (events_list dte) = {}"
    "set (events_list dtr) \<union> set (events_list dte) = set (map En_name (ty_list scenario_args))"
    "length (events_list dtr) = 3 * length (ty_list scenario_args) div 4"
    by simp_all
  then show ?thesis using split_train split_test perm by (simp add: etr ete)
qed

text \<open>
  Claim C3 fails on the code at the index \<open>-1\<close>. The assertion of line 97 bounds the index
  from above only: the scan stops at the first event with the offset \<open>-1\<close>, and where the
  files of the frames before the issue time exist \<^verbatim>\<open>__getitem__\<close> returns a sample.
\<close>

theorem negative_index_accepted:
  "resolve scenario_ds (- 1) = Inr (Some (''A'', - 1)) \<and>
   TyDataset_getitem env0 scenario_ds (- 1) =
     (Inr (Some scenario_sample), scenario_ds \<lparr> sample := Some scenario_sample \<rparr>)"
  using scenario_resolve(4) scenario_getitem(2) by simp

text \<open>
  Claim C6 fails on the code when the grid channels are enabled. In an input frame the
  channels are the field, the column grid and the row grid; in the radar map the channel
  counter is not advanced after the field is written, so channel 0 holds the column grid,
  channel 1 the row grid and channel 2 stays zero.
\<close>

theorem radar_map_channel_overwritten:
  "map_sum id (map_option (\<lambda>s. (inputs s ! 2, radar_map s)))
     (fst (TyDataset_getitem env0 grid_ds 0)) =
   Inr (Some
     ([[[Fin 1, Fin 2], [Fin 3, Fin 4]], [[Fin 0, Fin 1], [Fin 0, Fin 1]],
        [[Fin 0, Fin 0], [Fin 1, Fin 1]]],
      [[[Fin 0, Fin 1], [Fin 0, Fin 1]], [[Fin 0, Fin 0], [Fin 1, Fin 1]],
        [[Fin 0, Fin 0], [Fin 0, Fin 0]]]))"
  by (rule grid_getitem)

text \<open>
  Claim C9, amended. When \<^verbatim>\<open>__getitem__\<close> returns a sample, the dataset object after the
  call is the object before it with the field \<open>sample\<close> set to the returned sample: that
  field, and no other, is written.
\<close>

theorem getitem_retains_sample:
  assumes "TyDataset_getitem env ds idx = (Inr (Some s), ds')"
  shows "ds' = ds \<lparr> sample := Some s \<rparr> \<and> sample ds' = Some s"
proof -
  from assms have "ds' = ds \<lparr> sample := Some s \<rparr>" by (rule getitem_writes_sample)
  then show ?thesis by simp
qed

theorem getitem_retains_sample_witness:
  "TyDataset_getitem env0 scenario_ds 0 =
     (Inr (Some scenario_sample), scenario_ds \<lparr> sample := Some scenario_sample \<rparr>) \<and>
   sample (scenario_ds \<lparr> sample := Some scenario_sample \<rparr>) = Some scenario_sample"
  using getitem_retains_sample [OF scenario_getitem(1)] scenario_getitem(1) by simp

text \<open>
  Claim C9 as stated fails: the dataset of the scenario has no sample before the call and
  holds the returned sample in its field \<open>sample\<close> after it.
\<close>

theorem sample_retained_counterexample:
  "sample scenario_ds = None \<and>
   fst (TyDataset_getitem env0 scenario_ds 0) = Inr (Some scenario_sample) \<and>
   sample (snd (TyDataset_getitem env0 scenario_ds 0)) = Some scenario_sample"
  using scenario_getitem(1) by (simp add: scenario_ds_def args.defs)

text \<open>
  Claim C8, amended. \<^verbatim>\<open>Normalize.__call__\<close> does not check the statistics: when the maximum
  and the minimum of the primary field are the same finite number, it divides by zero, and
  the sample object after the call holds in channel 0 of every input frame the quotients
  \<open>(x - min) / 0\<close> of the values it held before, none of them finite.
\<close>

theorem degenerate_range_divides:
  assumes mn: "getitem (min_values self) ''RAD'' = Inr (Fin m)"
    and mx: "getitem (max_values self) ''RAD'' = Inr (Fin m)"
    and ch: "list_all (\<lambda>fr. 0 < length fr) (inputs smp)"
  shows "map (\<lambda>fr. fr ! 0) (inputs (snd (Normalize_call self smp))) =
           map (\<lambda>fr. map_grid (\<lambda>x. fdiv (fsub x (Fin m)) (Fin 0)) (fr ! 0)) (inputs smp) \<and>
         list_all (\<lambda>fr. list_all (list_all (\<lambda>x. \<not> is_finite x)) (fr ! 0))
           (inputs (snd (Normalize_call self smp)))"
proof -
  from normalize_inputs_degenerate [OF mn mx ch] obtain s1 where
    s1: "normalize_inputs self smp = Inr s1"
    and p1: "primary s1 = map (\<lambda>fr. map_grid (\<lambda>x. fdiv (fsub x (Fin m)) (Fin 0)) (fr ! 0))
               (inputs smp)" by blast
  let ?rest = "if input_with_grid self
               then [normalize_inputs_x self, normalize_inputs_y self] else []"
  have "primary (snd (run_stmts ?rest s1)) = primary s1"
    by (rule run_stmts_keeps) (auto dest: inputs_xy_keep)
  with s1 have "primary (snd (run_stmts (normalize_inputs self # ?rest) smp)) = primary s1"
    by simp
  with p1 have eq: "primary (snd (Normalize_call self smp)) =
      map (\<lambda>fr. map_grid (\<lambda>x. fdiv (fsub x (Fin m)) (Fin 0)) (fr ! 0)) (inputs smp)"
    by (simp only: Normalize_call_primary)
  have "list_all (list_all (list_all (\<lambda>x. \<not> is_finite x))) (primary (snd (Normalize_call self smp)))"
    unfolding eq by (simp add: list_all_iff map_grid_def fdiv_zero_not_finite)
  then have "list_all (\<lambda>fr. list_all (list_all (\<lambda>x. \<not> is_finite x)) (fr ! 0))
           (inputs (snd (Normalize_call self smp)))"
    by (simp add: primary_def list_all_iff)
  with eq show ?thesis by (simp add: primary_def)
qed

theorem degenerate_range_divides_witness:
  "getitem (min_values degenerate_args) ''RAD'' = Inr (Fin 0) \<and>
   getitem (max_values degenerate_args) ''RAD'' = Inr (Fin 0) \<and>
   list_all (\<lambda>fr. 0 < length fr) (inputs scenario_sample) \<and>
   map (\<lambda>fr. fr ! 0) (inputs (snd (Normalize_call degenerate_args scenario_sample))) =
     replicate 3 [[PInf, PInf], [PInf, PInf]]"
proof -
  have mn: "getitem (min_values degenerate_args) ''RAD'' = Inr (Fin 0)"
    and mx: "getitem (max_values degenerate_args) ''RAD'' = Inr (Fin 0)"
    by (simp_all add: degenerate_self stats_fields)
  have ch: "list_all (\<lambda>fr. 0 < length fr) (inputs scenario_sample)"
    by (simp add: scenario_sample_def numeral_3_eq_3)
  from degenerate_range_divides [OF mn mx ch] mn mx ch show ?thesis
    by (simp add: scenario_sample_def map_grid_def fsub_def numeral_3_eq_3)
qed

text \<open>
  Claim C8 as stated fails: with equal bounds the call does not raise for the statistics;
  it writes infinities into the inputs and the radar map of the sample it was given, and
  the exception it ends with is the one it ends with for every input.
\<close>

theorem degenerate_range_counterexample:
  "getitem (min_values degenerate_args) ''RAD'' = Inr (Fin 0) \<and>
   getitem (max_values degenerate_args) ''RAD'' = Inr (Fin 0) \<and>
   Normalize_call degenerate_args scenario_sample =
     (Inl (NameError ''height''),
      scenario_sample
        \<lparr> inputs := replicate 3 [[[PInf, PInf], [PInf, PInf]]],
          radar_map := [[[PInf, PInf], [PInf, PInf]]] \<rparr>)"
  using degenerate_normalize by (simp add: degenerate_self stats_fields)

text \<open>
  Claim C7 fails on the code for every sample and every statistics object: the call never
  returns a sample, and where no earlier statement raises, as in the scenario, line 249
  raises \<^verbatim>\<open>NameError\<close> for the unbound name \<^verbatim>\<open>height\<close>.
\<close>

theorem normalize_raises_name_error:
  "fst (Normalize_call self smp) \<noteq> Inr s \<and>
   fst (Normalize_call scenario_args scenario_sample) = Inl (NameError ''height'')"
  using Normalize_call_raises [of self smp s] scenario_normalize by simp

text \<open>
  Claim C10. For statistics of any class the value of \<^verbatim>\<open>type(x) == pd.Series or list\<close> is
  true in a condition, and \<^verbatim>\<open>Normalize.__init__\<close> raises on no arguments.
\<close>

theorem type_check_always_passes:
  "truthy (type_check x) \<and> Normalize_init a = Inr a"
  by (simp add: type_check_truthy Normalize_init_succeeds)

end
